theory Spec2Isabelle
  imports
    Complex_Main
    "HOL-Library.Sublist"
    "HOL-Library.Multiset"
    "HOL-Library.Char_ord"
    "HOL-Library.List_Lexorder"
    "HOL-Library.Product_Lexorder"
begin

section \<open>Accident-data analysis script (task_4.py)\<close>

text \<open>
  The script is one linear sequence of statements over a table loaded from a CSV file.
  The embedding takes the loaded table \<open>df\<close> as its input and follows the script
  statement by statement: the null count and the row filter (lines 24 to 27), the
  conversion of the severity column (lines 30 to 34), the frequency tables (lines 37 to
  42), the cross-tabulations (lines 99 to 101 and 115), the chi-square tests (lines 129
  to 136) and the export (lines 139 to 144). Every exception the script can raise on
  the way is a value \<open>Inl e\<close>. The calls into matplotlib draw and save pictures and
  compute nothing that a later statement reads; they are left out.
\<close>

subsection \<open>Tables\<close>

text \<open>
  A cell of a table is missing (\<open>NaN\<close>), a number or a string. A table has a header,
  which gives each column its label and its dtype, and a list of rows. A column read
  from CSV has dtype \<open>Object\<close> when it holds strings and \<open>Numeric\<close> otherwise;
  \<open>Category cs\<close> is the dtype of a categorical column with categories \<open>cs\<close>. Numbers
  are kept as integers: no statement of the script does arithmetic on a cell.
\<close>

datatype cell = NaN | Num int | Str string

datatype dtype = Object | Numeric | Category "cell list"

datatype error = KeyError string | TypeError | ValueError string

record frame =
  header :: "(string \<times> dtype) list"
  rows :: "cell list list"

definition columns :: "frame \<Rightarrow> string list" where
  "columns d = map fst (header d)"

definition dtypes :: "frame \<Rightarrow> dtype list" where
  "dtypes d = map snd (header d)"

fun is_Str :: "cell \<Rightarrow> bool" where
  "is_Str (Str s) = True"
| "is_Str c = False"


text \<open>Position of a column label; \<open>None\<close> is the script's \<open>KeyError\<close>.\<close>

fun col_index :: "string list \<Rightarrow> string \<Rightarrow> nat option" where
  "col_index [] c = None"
| "col_index (x # xs) c =
     (if x = c then Some 0 else map_option Suc (col_index xs c))"

text \<open>
  A row shorter than the header has missing cells at its end, as \<open>read_csv\<close> fills it.
\<close>

definition cell_at :: "cell list \<Rightarrow> nat \<Rightarrow> cell" where
  "cell_at r i = (if i < length r then r ! i else NaN)"

text \<open>\<open>df[c]\<close>: the values of one column, or \<open>KeyError\<close>.\<close>

definition getitem :: "frame \<Rightarrow> string \<Rightarrow> error + cell list" where
  "getitem d c =
     (case col_index (columns d) c of
        None \<Rightarrow> Inl (KeyError c)
      | Some i \<Rightarrow> Inr (map (\<lambda>r. cell_at r i) (rows d)))"

text \<open>
  \<open>df[cols]\<close> with a list of labels raises \<open>KeyError\<close> when a label is not a column;
  \<open>col_indices\<close> gives the positions of the labels otherwise.
\<close>

fun col_indices :: "string list \<Rightarrow> string list \<Rightarrow> error + nat list" where
  "col_indices cs [] = Inr []"
| "col_indices cs (c # rest) =
     (case col_index cs c of
        None \<Rightarrow> Inl (KeyError c)
      | Some i \<Rightarrow>
          (case col_indices cs rest of
             Inl e \<Rightarrow> Inl e
           | Inr is \<Rightarrow> Inr (i # is)))"

subsection \<open>Cleaning (lines 20 to 34)\<close>

definition cols_of_interest :: "string list" where
  "cols_of_interest =
     [''Road_surface_type'', ''Weather_conditions'', ''Light_conditions'',
      ''Types_of_Junction'', ''Lanes_or_Medians'', ''Cause_of_accident'',
      ''Accident_severity'', ''Type_of_collision'']"

text \<open>\<open>df[cols].isnull().sum()\<close>: the number of missing cells of each listed column.\<close>

definition isnull_sum :: "frame \<Rightarrow> string list \<Rightarrow> error + (string \<times> nat) list" where
  "isnull_sum d cs =
     (case col_indices (columns d) cs of
        Inl e \<Rightarrow> Inl e
      | Inr is \<Rightarrow>
          Inr (map (\<lambda>(c, i). (c, length (filter (\<lambda>r. cell_at r i = NaN) (rows d))))
                 (zip cs is)))"

text \<open>
  \<open>df.dropna(subset=cols)\<close>: the rows with no missing cell in the listed columns, in
  their order; the header is kept.
\<close>

definition dropna :: "frame \<Rightarrow> string list \<Rightarrow> error + frame" where
  "dropna d cs =
     (case col_indices (columns d) cs of
        Inl e \<Rightarrow> Inl e
      | Inr is \<Rightarrow>
          Inr (d\<lparr>rows := filter (\<lambda>r. \<forall>i \<in> set is. cell_at r i \<noteq> NaN) (rows d)\<rparr>))"

text \<open>\<open>Series.unique()\<close>: the distinct values in order of first appearance.\<close>

fun unique :: "'a list \<Rightarrow> 'a list" where
  "unique [] = []"
| "unique (x # xs) = x # filter (\<lambda>y. y \<noteq> x) (unique xs)"

text \<open>
  Python's \<open>sorted\<close> on cells. Strings compare by code point, numbers by value, and a
  string compared with anything else raises \<open>TypeError\<close>. The key orders numbers
  before strings, which is also the order pandas gives the labels of a group operation.
  A missing value among numbers is placed last; the script sorts no such list.
\<close>

fun cell_key :: "cell \<Rightarrow> nat \<times> int \<times> string" where
  "cell_key (Num n) = (0, n, [])"
| "cell_key (Str s) = (1, 0, s)"
| "cell_key NaN = (2, 0, [])"

definition py_sorted :: "cell list \<Rightarrow> error + cell list" where
  "py_sorted xs =
     (if list_ex is_Str xs \<and> list_ex (\<lambda>c. \<not> is_Str c) xs then Inl TypeError
      else Inr (sort_key cell_key xs))"

text \<open>
  \<open>pd.Categorical(values, categories=cats)\<close>: a value that is not a category becomes
  missing.
\<close>

definition Categorical :: "cell list \<Rightarrow> cell list \<Rightarrow> cell list" where
  "Categorical vals cats = map (\<lambda>v. if v \<in> set cats then v else NaN) vals"

text \<open>\<open>d[c] = vals\<close> on an existing column at position \<open>i\<close>, with its new dtype.\<close>

definition setitem :: "frame \<Rightarrow> nat \<Rightarrow> cell list \<Rightarrow> dtype \<Rightarrow> frame" where
  "setitem d i vals t =
     d\<lparr>header := (header d)[i := (columns d ! i, t)],
       rows := map (\<lambda>(r, v). r[i := v]) (zip (rows d) vals)\<rparr>"

text \<open>
  Lines 30 to 34: when the severity column has dtype \<open>object\<close> it is replaced by a
  categorical whose categories are the sorted distinct values of the column.
\<close>

definition convert_severity :: "frame \<Rightarrow> error + frame" where
  "convert_severity d =
     (case col_index (columns d) ''Accident_severity'' of
        None \<Rightarrow> Inl (KeyError ''Accident_severity'')
      | Some i \<Rightarrow>
          if dtypes d ! i = Object then
            (let vals = map (\<lambda>r. cell_at r i) (rows d) in
             case py_sorted (unique vals) of
               Inl e \<Rightarrow> Inl e
             | Inr cats \<Rightarrow> Inr (setitem d i (Categorical vals cats) (Category cats)))
          else Inr d)"

text \<open>
  The state after line 34: \<open>df\<close> is still bound to the loaded table, \<open>df_clean\<close> to the
  copy that line 27 made and line 32 updated.
\<close>

record cleaned =
  df :: frame
  missing_before :: "(string \<times> nat) list"
  df_clean :: frame

definition clean :: "frame \<Rightarrow> error + cleaned" where
  "clean d =
     (case isnull_sum d cols_of_interest of
        Inl e \<Rightarrow> Inl e
      | Inr mb \<Rightarrow>
          (case dropna d cols_of_interest of
             Inl e \<Rightarrow> Inl e
           | Inr dc \<Rightarrow>
               (case convert_severity dc of
                  Inl e \<Rightarrow> Inl e
                | Inr dc' \<Rightarrow> Inr \<lparr>df = d, missing_before = mb, df_clean = dc'\<rparr>)))"

subsection \<open>Frequency tables (lines 37 to 42)\<close>

text \<open>
  \<open>Series.value_counts()\<close>: the distinct non-missing values with their numbers of
  occurrences, most frequent first; values of equal frequency stay in order of first
  appearance. \<open>head(15)\<close> keeps the first fifteen entries.
\<close>

definition value_counts :: "cell list \<Rightarrow> (cell \<times> nat) list" where
  "value_counts xs =
     sort_key (\<lambda>(v, n). - int n)
       (map (\<lambda>v. (v, count_list xs v)) (unique (filter (\<lambda>v. v \<noteq> NaN) xs)))"

definition head :: "nat \<Rightarrow> 'a list \<Rightarrow> 'a list" where
  "head n xs = take n xs"

record counts =
  counts_weather :: "(cell \<times> nat) list"
  counts_road :: "(cell \<times> nat) list"
  counts_light :: "(cell \<times> nat) list"
  counts_junction :: "(cell \<times> nat) list"
  counts_lanes :: "(cell \<times> nat) list"
  counts_cause :: "(cell \<times> nat) list"

definition overall_counts :: "frame \<Rightarrow> error + counts" where
  "overall_counts d =
     (case getitem d ''Weather_conditions'' of Inl e \<Rightarrow> Inl e | Inr w \<Rightarrow>
      case getitem d ''Road_surface_type'' of Inl e \<Rightarrow> Inl e | Inr r \<Rightarrow>
      case getitem d ''Light_conditions'' of Inl e \<Rightarrow> Inl e | Inr l \<Rightarrow>
      case getitem d ''Types_of_Junction'' of Inl e \<Rightarrow> Inl e | Inr j \<Rightarrow>
      case getitem d ''Lanes_or_Medians'' of Inl e \<Rightarrow> Inl e | Inr m \<Rightarrow>
      case getitem d ''Cause_of_accident'' of Inl e \<Rightarrow> Inl e | Inr c \<Rightarrow>
        Inr \<lparr>counts_weather = value_counts w,
             counts_road = value_counts r,
             counts_light = value_counts l,
             counts_junction = value_counts j,
             counts_lanes = value_counts m,
             counts_cause = head 15 (value_counts c)\<rparr>)"

subsection \<open>Cross-tabulation (lines 99 to 101, 115, 131)\<close>

text \<open>
  \<open>pd.crosstab(d[a], d[b])\<close> counts the rows of each pair of values. Rows with a
  missing value in either column are left out. The labels of a categorical column are
  its categories that occur, in category order; the labels of any other column are its
  distinct values, sorted. A pair that does not occur has count 0.
\<close>

record table =
  t_index :: "cell list"
  t_columns :: "cell list"
  t_values :: "nat list list"

definition labels :: "dtype \<Rightarrow> cell list \<Rightarrow> cell list" where
  "labels t vals =
     (case t of
        Category cats \<Rightarrow> filter (\<lambda>c. c \<in> set vals) cats
      | Object \<Rightarrow> sort_key cell_key (unique vals)
      | Numeric \<Rightarrow> sort_key cell_key (unique vals))"

definition pairs :: "frame \<Rightarrow> nat \<Rightarrow> nat \<Rightarrow> (cell \<times> cell) list" where
  "pairs d i j =
     filter (\<lambda>(x, y). x \<noteq> NaN \<and> y \<noteq> NaN) (map (\<lambda>r. (cell_at r i, cell_at r j)) (rows d))"

definition crosstab :: "frame \<Rightarrow> string \<Rightarrow> string \<Rightarrow> error + table" where
  "crosstab d a b =
     (case col_index (columns d) a of
        None \<Rightarrow> Inl (KeyError a)
      | Some i \<Rightarrow>
     (case col_index (columns d) b of
        None \<Rightarrow> Inl (KeyError b)
      | Some j \<Rightarrow>
          (let prs = pairs d i j;
               rl = labels (dtypes d ! i) (map fst prs);
               cl = labels (dtypes d ! j) (map snd prs)
           in Inr \<lparr>t_index = rl, t_columns = cl,
                   t_values = map (\<lambda>x. map (\<lambda>y. count_list prs (x, y)) cl) rl\<rparr>)))"

text \<open>\<open>table.shape\<close>: the numbers of row labels and of column labels.\<close>

definition shape :: "table \<Rightarrow> nat \<times> nat" where
  "shape t = (length (t_index t), length (t_columns t))"

subsection \<open>Row-normalised proportions (line 101)\<close>

text \<open>
  A float64 value is a rational, an infinity or not-a-number. Dividing a count by a
  count is one IEEE division: the exact quotient, rounded by \<open>rnd\<close>; a positive count
  over zero is infinite and zero over zero is not-a-number. The rounding function is a
  parameter of the model.
\<close>

datatype xfloat = Fin rat | PInf | NaNf

definition true_div :: "(rat \<Rightarrow> rat) \<Rightarrow> nat \<Rightarrow> nat \<Rightarrow> xfloat" where
  "true_div rnd x s =
     (if s = 0 then (if x = 0 then NaNf else PInf)
      else Fin (rnd (of_nat x / of_nat s)))"

fun fillna :: "rat \<Rightarrow> xfloat \<Rightarrow> xfloat" where
  "fillna v NaNf = Fin v"
| "fillna v x = x"

text \<open>\<open>pivot.div(pivot.sum(axis=1), axis=0).fillna(0)\<close>\<close>

definition normalize_rows :: "(rat \<Rightarrow> rat) \<Rightarrow> nat list list \<Rightarrow> xfloat list list" where
  "normalize_rows rnd vs =
     map (\<lambda>row. map (\<lambda>x. fillna 0 (true_div rnd x (sum_list row))) row) vs"

subsection \<open>Chi-square test of independence (lines 129 to 136)\<close>

text \<open>
  \<open>scipy.stats.chi2_contingency(observed)\<close> with its default arguments, on a
  two-dimensional array of counts given as the list of its rows. The arithmetic of the
  test is exact: its float64 values are rationals, and rounding is not modelled. The
  upper-tail probability of the chi-square distribution is the parameter \<open>sf\<close>.
  The counts are natural numbers, so the function's check for a negative entry never
  fires. The checks that follow are in its order: an array without cells, then a zero
  among the expected frequencies.
\<close>

definition ncols :: "nat list list \<Rightarrow> nat" where
  "ncols obs = (case obs of [] \<Rightarrow> 0 | r # rs \<Rightarrow> length r)"

definition size2 :: "nat list list \<Rightarrow> nat" where
  "size2 obs = length obs * ncols obs"

definition entry :: "nat list \<Rightarrow> nat \<Rightarrow> nat" where
  "entry r j = (if j < length r then r ! j else 0)"

definition row_totals :: "nat list list \<Rightarrow> nat list" where
  "row_totals obs = map sum_list obs"

definition col_totals :: "nat list list \<Rightarrow> nat list" where
  "col_totals obs = map (\<lambda>j. sum_list (map (\<lambda>r. entry r j) obs)) [0..<ncols obs]"

definition grand_total :: "nat list list \<Rightarrow> nat" where
  "grand_total obs = sum_list (map sum_list obs)"

text \<open>
  \<open>expected_freq\<close>: the product of the marginal sums over the total. On a table whose
  total is zero every quotient is zero over zero, which is not-a-number.
\<close>

definition expected_freq :: "nat list list \<Rightarrow> xfloat list list" where
  "expected_freq obs =
     map (\<lambda>rt. map (\<lambda>ct.
            if grand_total obs = 0 then NaNf
            else Fin (of_nat rt * of_nat ct / of_nat (grand_total obs)))
          (col_totals obs))
       (row_totals obs)"

text \<open>
  Yates' correction moves an observed count towards its expected frequency by at most
  one half.
\<close>

fun yates :: "nat \<Rightarrow> xfloat \<Rightarrow> xfloat" where
  "yates ob (Fin e) = Fin (of_nat ob + min (1 / 2) \<bar>e - of_nat ob\<bar> * sgn (e - of_nat ob))"
| "yates ob PInf = Fin (of_nat ob + 1 / 2)"
| "yates ob NaNf = NaNf"

text \<open>
  One term \<open>(f_obs - f_exp)\<^sup>2 / f_exp\<close> of the Pearson statistic, and the sum of the
  terms. Expected frequencies are never negative.
\<close>

fun pearson_term :: "xfloat \<Rightarrow> xfloat \<Rightarrow> xfloat" where
  "pearson_term (Fin a) (Fin b) =
     (if b = 0 then (if a = 0 then NaNf else PInf) else Fin ((a - b)\<^sup>2 / b))"
| "pearson_term PInf (Fin b) = PInf"
| "pearson_term x y = NaNf"

fun xadd :: "xfloat \<Rightarrow> xfloat \<Rightarrow> xfloat" where
  "xadd (Fin a) (Fin b) = Fin (a + b)"
| "xadd NaNf y = NaNf"
| "xadd x NaNf = NaNf"
| "xadd x y = PInf"

definition xsum :: "xfloat list \<Rightarrow> xfloat" where
  "xsum xs = foldl xadd (Fin 0) xs"

definition power_divergence :: "xfloat list list \<Rightarrow> xfloat list list \<Rightarrow> xfloat" where
  "power_divergence f_obs f_exp =
     xsum (map (\<lambda>(a, b). pearson_term a b) (zip (concat f_obs) (concat f_exp)))"

definition chi2_contingency ::
  "(xfloat \<Rightarrow> int \<Rightarrow> xfloat) \<Rightarrow> nat list list
     \<Rightarrow> error + (xfloat \<times> xfloat \<times> int \<times> xfloat list list)" where
  "chi2_contingency sf observed =
     (if size2 observed = 0 then Inl (ValueError ''No data; observed has size 0.'')
      else
        (let expected = expected_freq observed in
         if Fin 0 \<in> set (concat expected)
         then Inl (ValueError ''The internally computed table of expected frequencies has a zero element.'')
         else
           (let dof = int (size2 observed) - (int (length observed) + int (ncols observed)) + 2 - 1
            in if dof = 0 then Inr (Fin 0, Fin 1, dof, expected)
               else
                 (let f_obs =
                        (if dof = 1
                         then map (\<lambda>(r, es). map (\<lambda>(ob, e). yates ob e) (zip r es))
                                (zip observed expected)
                         else map (map (\<lambda>ob. Fin (of_nat ob))) observed);
                      chi2 = power_divergence f_obs expected
                  in Inr (chi2, sf chi2 dof, dof, expected)))))"

record test_result =
  chi2 :: xfloat
  p_value :: xfloat
  dof :: int
  table_shape :: "nat \<times> nat"

definition run_chi2 ::
  "(xfloat \<Rightarrow> int \<Rightarrow> xfloat) \<Rightarrow> frame \<Rightarrow> string \<Rightarrow> error + test_result" where
  "run_chi2 sf d var =
     (case crosstab d var ''Accident_severity'' of
        Inl e \<Rightarrow> Inl e
      | Inr t \<Rightarrow>
          (case chi2_contingency sf (t_values t) of
             Inl e \<Rightarrow> Inl e
           | Inr (c, p, k, ex) \<Rightarrow>
               Inr \<lparr>chi2 = c, p_value = p, dof = k, table_shape = shape t\<rparr>))"

text \<open>The loop of lines 135 and 136 fills the dictionary \<open>tests\<close> in order.\<close>

fun run_tests ::
  "(xfloat \<Rightarrow> int \<Rightarrow> xfloat) \<Rightarrow> frame \<Rightarrow> string list
     \<Rightarrow> error + (string \<times> test_result) list" where
  "run_tests sf d [] = Inr []"
| "run_tests sf d (var # vars) =
     (case run_chi2 sf d var of
        Inl e \<Rightarrow> Inl e
      | Inr r \<Rightarrow>
          (case run_tests sf d vars of
             Inl e \<Rightarrow> Inl e
           | Inr rs \<Rightarrow> Inr ((var, r) # rs)))"

subsection \<open>The whole script\<close>

text \<open>
  The two files written by lines 143 and 144 are kept as their header and their records.
  Nothing is written when an earlier statement raises.
\<close>

record outputs =
  o_cleaned :: cleaned
  o_counts :: counts
  pivot_w_s :: table
  pivot_w_s_norm :: "xfloat list list"
  pivot_heat :: table
  tests :: "(string \<times> test_result) list"
  cleaned_for_analysis_csv :: "string list \<times> cell list list"
  chi2_tests_summary_csv :: "string list \<times> (string \<times> test_result) list"

definition script ::
  "(xfloat \<Rightarrow> int \<Rightarrow> xfloat) \<Rightarrow> (rat \<Rightarrow> rat) \<Rightarrow> frame \<Rightarrow> error + outputs" where
  "script sf rnd d =
     (case clean d of Inl e \<Rightarrow> Inl e | Inr c \<Rightarrow>
      case overall_counts (df_clean c) of Inl e \<Rightarrow> Inl e | Inr k \<Rightarrow>
      case crosstab (df_clean c) ''Weather_conditions'' ''Accident_severity'' of
        Inl e \<Rightarrow> Inl e | Inr pws \<Rightarrow>
      case crosstab (df_clean c) ''Weather_conditions'' ''Road_surface_type'' of
        Inl e \<Rightarrow> Inl e | Inr ph \<Rightarrow>
      case run_tests sf (df_clean c)
             [''Weather_conditions'', ''Road_surface_type'', ''Light_conditions'',
              ''Types_of_Junction''] of
        Inl e \<Rightarrow> Inl e | Inr ts \<Rightarrow>
        Inr \<lparr>o_cleaned = c, o_counts = k,
             pivot_w_s = pws,
             pivot_w_s_norm = normalize_rows rnd (t_values pws),
             pivot_heat = ph,
             tests = ts,
             cleaned_for_analysis_csv = (columns (df_clean c), rows (df_clean c)),
             chi2_tests_summary_csv =
               ([''variable'', ''chi2'', ''p_value'', ''dof'', ''table_shape''], ts)\<rparr>)"

subsection \<open>Notions used to state the properties\<close>

text \<open>The cell of row \<open>r\<close> under the column labelled \<open>n\<close>; missing when there is no such column.\<close>

definition row_get :: "frame \<Rightarrow> cell list \<Rightarrow> string \<Rightarrow> cell" where
  "row_get d r n = (case col_index (columns d) n of None \<Rightarrow> NaN | Some i \<Rightarrow> cell_at r i)"

definition complete :: "frame \<Rightarrow> cell list \<Rightarrow> bool" where
  "complete d r = (\<forall>n \<in> set cols_of_interest. row_get d r n \<noteq> NaN)"

text \<open>
  A small table for concrete checks: the eight required columns and a numeric one, with
  a row that misses its weather and a row that misses only its age.
\<close>

definition demo_row :: "string \<Rightarrow> string \<Rightarrow> string \<Rightarrow> cell list" where
  "demo_row w s c =
     [Str ''Dry'', Str w, Str ''Day'', Str ''Y'', Str ''One'', Str c, Str s, Str ''Rear'']"

definition demo :: frame where
  "demo =
     \<lparr>header = map (\<lambda>n. (n, Object)) cols_of_interest @ [(''Age'', Numeric)],
      rows = [demo_row ''Rain'' ''Slight'' ''Speed'' @ [Num 3],
              [Str ''Dry'', NaN, Str ''Day'', Str ''Y'', Str ''One'', Str ''Speed'',
               Str ''Fatal'', Str ''Rear'', Num 4],
              demo_row ''Clear'' ''Fatal'' ''Turn'' @ [NaN]]\<rparr>"

definition demo_clean :: frame where
  "demo_clean =
     \<lparr>header =
        [(''Road_surface_type'', Object), (''Weather_conditions'', Object),
         (''Light_conditions'', Object), (''Types_of_Junction'', Object),
         (''Lanes_or_Medians'', Object), (''Cause_of_accident'', Object),
         (''Accident_severity'', Category [Str ''Fatal'', Str ''Slight'']),
         (''Type_of_collision'', Object), (''Age'', Numeric)],
      rows = [demo_row ''Rain'' ''Slight'' ''Speed'' @ [Num 3],
              demo_row ''Clear'' ''Fatal'' ''Turn'' @ [NaN]]\<rparr>"

text \<open>
  Ten complete records with two weather values and two severities: six clear and four
  rainy, three fatal and seven slight, every combination present.
\<close>

definition survey :: frame where
  "survey =
     \<lparr>header = map (\<lambda>n. (n, Object)) cols_of_interest,
      rows = [demo_row ''Clear'' ''Slight'' ''Speed'', demo_row ''Clear'' ''Slight'' ''Speed'',
              demo_row ''Rain'' ''Fatal'' ''Speed'', demo_row ''Clear'' ''Fatal'' ''Speed'',
              demo_row ''Clear'' ''Slight'' ''Speed'', demo_row ''Rain'' ''Slight'' ''Speed'',
              demo_row ''Rain'' ''Fatal'' ''Speed'', demo_row ''Clear'' ''Slight'' ''Speed'',
              demo_row ''Rain'' ''Slight'' ''Speed'', demo_row ''Clear'' ''Slight'' ''Speed'']\<rparr>"

definition survey_clean :: frame where
  "survey_clean =
     \<lparr>header =
        [(''Road_surface_type'', Object), (''Weather_conditions'', Object),
         (''Light_conditions'', Object), (''Types_of_Junction'', Object),
         (''Lanes_or_Medians'', Object), (''Cause_of_accident'', Object),
         (''Accident_severity'', Category [Str ''Fatal'', Str ''Slight'']),
         (''Type_of_collision'', Object)],
      rows = rows survey\<rparr>"

definition survey_table :: table where
  "survey_table =
     \<lparr>t_index = [Str ''Clear'', Str ''Rain''],
      t_columns = [Str ''Fatal'', Str ''Slight''],
      t_values = [[1, 5], [2, 2]]\<rparr>"



text \<open>Sixteen complete records, each with a cause of its own.\<close>

definition sixteen_causes :: "string list" where
  "sixteen_causes =
     [''c01'', ''c02'', ''c03'', ''c04'', ''c05'', ''c06'', ''c07'', ''c08'',
      ''c09'', ''c10'', ''c11'', ''c12'', ''c13'', ''c14'', ''c15'', ''c16'']"

definition many_causes :: frame where
  "many_causes =
     \<lparr>header = map (\<lambda>n. (n, Object)) cols_of_interest,
      rows = map (demo_row ''Clear'' ''Slight'') sixteen_causes\<rparr>"

definition many_causes_clean :: frame where
  "many_causes_clean =
     \<lparr>header =
        [(''Road_surface_type'', Object), (''Weather_conditions'', Object),
         (''Light_conditions'', Object), (''Types_of_Junction'', Object),
         (''Lanes_or_Medians'', Object), (''Cause_of_accident'', Object),
         (''Accident_severity'', Category [Str ''Slight'']),
         (''Type_of_collision'', Object)],
      rows = map (demo_row ''Clear'' ''Slight'') sixteen_causes\<rparr>"

text \<open>
  The statistic in the words of the specification: the sum over all cells of
  \<open>(observed - expected)\<^sup>2 / expected\<close>, where the expected frequency of a cell is its row
  total times its column total over the grand total. The cells are taken row by row,
  each with the total of its column.
\<close>

definition spec_expected :: "nat list list \<Rightarrow> nat list \<Rightarrow> nat \<Rightarrow> rat" where
  "spec_expected obs row ct = of_nat (sum_list row) * of_nat ct / of_nat (grand_total obs)"

definition spec_chi2 :: "nat list list \<Rightarrow> rat" where
  "spec_chi2 obs =
     (\<Sum>row\<leftarrow>obs. \<Sum>cell\<leftarrow>zip row (col_totals obs).
        (of_nat (fst cell) - spec_expected obs row (snd cell))\<^sup>2
          / spec_expected obs row (snd cell))"

text \<open>
  The same sum after Yates' correction: each observed count is first moved towards its
  expected frequency by one half, or by their distance when that is smaller.
\<close>

definition corrected :: "nat \<Rightarrow> rat \<Rightarrow> rat" where
  "corrected ob e = of_nat ob + min (1 / 2) \<bar>e - of_nat ob\<bar> * sgn (e - of_nat ob)"

definition yates_chi2 :: "nat list list \<Rightarrow> rat" where
  "yates_chi2 obs =
     (\<Sum>row\<leftarrow>obs. \<Sum>cell\<leftarrow>zip row (col_totals obs).
        (corrected (fst cell) (spec_expected obs row (snd cell))
           - spec_expected obs row (snd cell))\<^sup>2
          / spec_expected obs row (snd cell))"

text \<open>A table as \<open>read_csv\<close> yields it has no categorical column.\<close>

definition plain :: "frame \<Rightarrow> bool" where
  "plain d = list_all (\<lambda>t. t = Object \<or> t = Numeric) (dtypes d)"

text \<open>Every cell of a categorical column is missing or one of the categories.\<close>

definition categories_hold :: "frame \<Rightarrow> bool" where
  "categories_hold d =
     (\<forall>i < length (header d). \<forall>cats. dtypes d ! i = Category cats \<longrightarrow>
        (\<forall>r \<in> set (rows d). cell_at r i = NaN \<or> cell_at r i \<in> set cats))"

text \<open>Four complete records with two weather values and three severities.\<close>

definition triple :: frame where
  "triple =
     \<lparr>header = map (\<lambda>n. (n, Object)) cols_of_interest,
      rows = [demo_row ''Clear'' ''Fatal'' ''Speed'', demo_row ''Rain'' ''Serious'' ''Speed'',
              demo_row ''Clear'' ''Slight'' ''Speed'', demo_row ''Rain'' ''Slight'' ''Speed'']\<rparr>"

definition triple_clean :: frame where
  "triple_clean =
     \<lparr>header =
        [(''Road_surface_type'', Object), (''Weather_conditions'', Object),
         (''Light_conditions'', Object), (''Types_of_Junction'', Object),
         (''Lanes_or_Medians'', Object), (''Cause_of_accident'', Object),
         (''Accident_severity'', Category [Str ''Fatal'', Str ''Serious'', Str ''Slight'']),
         (''Type_of_collision'', Object)],
      rows = rows triple\<rparr>"

definition triple_table :: table where
  "triple_table =
     \<lparr>t_index = [Str ''Clear'', Str ''Rain''],
      t_columns = [Str ''Fatal'', Str ''Serious'', Str ''Slight''],
      t_values = [[1, 0, 1], [0, 1, 1]]\<rparr>"

section \<open>Properties\<close>

subsection \<open>Cleaning\<close>

lemma set_unique: "set (unique xs) = set xs"
  by (induction xs) auto

lemma distinct_unique: "distinct (unique xs)"
  by (induction xs) auto

lemma py_sorted_set: "py_sorted xs = Inr ys \<Longrightarrow> set ys = set xs"
  by (auto simp: py_sorted_def split: if_splits)


lemma Categorical_id: "set vals \<subseteq> set cats \<Longrightarrow> Categorical vals cats = vals"
  unfolding Categorical_def by (induction vals) auto

lemma update_cell_at: "r[i := cell_at r i] = r"
  by (simp add: cell_at_def list_update_beyond)

lemma setitem_same_rows:
  "rows (setitem d i (map (\<lambda>r. cell_at r i) (rows d)) t) = rows d"
proof -
  have "map (\<lambda>(r, v). r[i := v]) (zip rs (map (\<lambda>r. cell_at r i) rs)) = rs" for rs
    by (induction rs) (simp_all add: update_cell_at)
  then show ?thesis by (simp add: setitem_def)
qed

lemma col_index_less: "col_index cs n = Some i \<Longrightarrow> i < length cs \<and> cs ! i = n"
  by (induction cs arbitrary: i) (auto split: if_splits)


lemma columns_setitem:
  "i < length (header d) \<Longrightarrow> columns (setitem d i vals t) = columns d"
  by (simp add: setitem_def columns_def map_update list_update_same_conv)

text \<open>
  What lines 30 to 34 do to the table: the rows and the labels stay, and the dtype of the
  severity column alone may change.
\<close>

lemma convert_severity_cases:
  assumes "convert_severity d = Inr d'"
  obtains (same) i where
      "col_index (columns d) ''Accident_severity'' = Some i"
      "dtypes d ! i \<noteq> Object"
      "d' = d"
  | (categorical) i cats where
      "col_index (columns d) ''Accident_severity'' = Some i"
      "dtypes d ! i = Object"
      "py_sorted (unique (map (\<lambda>r. cell_at r i) (rows d))) = Inr cats"
      "d' = setitem d i (map (\<lambda>r. cell_at r i) (rows d)) (Category cats)"
proof (cases "col_index (columns d) ''Accident_severity''")
  case None
  with assms show ?thesis by (simp add: convert_severity_def)
next
  case (Some i)
  show ?thesis
  proof (cases "dtypes d ! i = Object")
    case False
    with assms Some have "d' = d" by (simp add: convert_severity_def)
    with Some False show ?thesis by (rule same)
  next
    case True
    let ?vals = "map (\<lambda>r. cell_at r i) (rows d)"
    from assms Some True obtain cats where
      cats: "py_sorted (unique ?vals) = Inr cats"
      and d': "d' = setitem d i (Categorical ?vals cats) (Category cats)"
      by (auto simp: convert_severity_def Let_def split: sum.splits)
    have "set ?vals \<subseteq> set cats"
      using py_sorted_set[OF cats] by (simp add: set_unique)
    then have "Categorical ?vals cats = ?vals" by (rule Categorical_id)
    with d' have "d' = setitem d i ?vals (Category cats)" by simp
    with Some True cats show ?thesis by (rule categorical)
  qed
qed

lemma convert_severity_rows:
  "convert_severity d = Inr d' \<Longrightarrow> rows d' = rows d"
  by (erule convert_severity_cases) (simp_all add: setitem_same_rows)

lemma convert_severity_columns:
  assumes "convert_severity d = Inr d'"
  shows "columns d' = columns d"
  using assms
proof (cases rule: convert_severity_cases)
  case (same i)
  then show ?thesis by simp
next
  case (categorical i cats)
  from col_index_less[OF categorical(1)] have "i < length (header d)"
    by (simp add: columns_def)
  with categorical(4) show ?thesis by (simp add: columns_setitem)
qed

lemma convert_severity_header:
  assumes "convert_severity d = Inr d'"
    and "k < length (header d)" and "columns d ! k \<noteq> ''Accident_severity''"
  shows "header d' ! k = header d ! k"
  using assms(1)
proof (cases rule: convert_severity_cases)
  case (same i)
  then show ?thesis by simp
next
  case (categorical i cats)
  from col_index_less[OF categorical(1)] assms(3) have "i \<noteq> k" by auto
  with categorical(4) show ?thesis by (simp add: setitem_def)
qed

lemma col_indices_all:
  assumes "col_indices (columns d) ns = Inr is"
  shows "(\<forall>i \<in> set is. cell_at r i \<noteq> NaN) = (\<forall>n \<in> set ns. row_get d r n \<noteq> NaN)"
  using assms
  by (induction ns arbitrary: "is") (auto simp: row_get_def split: option.splits sum.splits)


lemma dropna_rows:
  assumes "dropna d ns = Inr d'"
  shows "rows d' = filter (\<lambda>r. \<forall>n \<in> set ns. row_get d r n \<noteq> NaN) (rows d)"
    and "header d' = header d"
proof -
  from assms obtain "is" where
    idx: "col_indices (columns d) ns = Inr is" and
    d': "d' = d\<lparr>rows := filter (\<lambda>r. \<forall>i \<in> set is. cell_at r i \<noteq> NaN) (rows d)\<rparr>"
    by (auto simp: dropna_def split: sum.splits)
  show "rows d' = filter (\<lambda>r. \<forall>n \<in> set ns. row_get d r n \<noteq> NaN) (rows d)"
    using d' by (simp add: col_indices_all[OF idx])
  show "header d' = header d" using d' by simp
qed

lemma clean_cases:
  assumes "clean d = Inr c"
  obtains mb dc where
    "isnull_sum d cols_of_interest = Inr mb"
    "dropna d cols_of_interest = Inr dc"
    "convert_severity dc = Inr (df_clean c)"
    "df c = d" "missing_before c = mb"
proof (cases "isnull_sum d cols_of_interest")
  case (Inl e)
  with assms show ?thesis by (simp add: clean_def)
next
  case mb: (Inr mb)
  show ?thesis
  proof (cases "dropna d cols_of_interest")
    case (Inl e)
    with assms mb show ?thesis by (simp add: clean_def)
  next
    case dc: (Inr dc)
    show ?thesis
    proof (cases "convert_severity dc")
      case (Inl e)
      with assms mb dc show ?thesis by (simp add: clean_def)
    next
      case (Inr dc')
      with assms mb dc have c: "c = \<lparr>df = d, missing_before = mb, df_clean = dc'\<rparr>"
        by (simp add: clean_def)
      have "convert_severity dc = Inr (df_clean c)" "df c = d" "missing_before c = mb"
        using Inr by (simp_all add: c)
      with mb dc show ?thesis by (rule that)
    qed
  qed
qed

lemma clean_rows:
  assumes "clean d = Inr c"
  shows "rows (df_clean c) = filter (complete d) (rows d)"
  using assms
proof (cases rule: clean_cases)
  case (1 mb dc)
  have "rows (df_clean c) = rows dc" using 1(3) by (rule convert_severity_rows)
  also have "\<dots> = filter (\<lambda>r. \<forall>n \<in> set cols_of_interest. row_get d r n \<noteq> NaN) (rows d)"
    using 1(2) by (rule dropna_rows)
  finally show ?thesis by (simp add: complete_def[abs_def])
qed

lemma clean_columns:
  assumes "clean d = Inr c"
  shows "columns (df_clean c) = columns d"
  using assms
proof (cases rule: clean_cases)
  case (1 mb dc)
  have "columns (df_clean c) = columns dc" using 1(3) by (rule convert_severity_columns)
  also have "\<dots> = columns d" using dropna_rows(2)[OF 1(2)] by (simp add: columns_def)
  finally show ?thesis .
qed

lemma row_get_cong: "columns d' = columns d \<Longrightarrow> row_get d' r n = row_get d r n"
  by (simp add: row_get_def)

lemma complete_cong: "columns d' = columns d \<Longrightarrow> complete d' r = complete d r"
  by (simp add: complete_def row_get_def)


text \<open>
  C1. After cleaning, no row of the cleaned table has a missing value in any of the eight
  required columns, and the cleaned rows are exactly the input rows that have no missing
  value in these columns: each of them is kept.
\<close>

theorem clean_keeps_exactly_complete_rows:
  assumes "clean d = Inr c"
  shows "(\<forall>r \<in> set (rows (df_clean c)). \<forall>n \<in> set cols_of_interest.
            row_get (df_clean c) r n \<noteq> NaN)
       \<and> rows (df_clean c) = filter (complete d) (rows d)
       \<and> (\<forall>r \<in> set (rows d). complete d r \<longrightarrow> r \<in> set (rows (df_clean c)))"
proof -
  have rws: "rows (df_clean c) = filter (complete d) (rows d)"
    using assms by (rule clean_rows)
  have cls: "columns (df_clean c) = columns d"
    using assms by (rule clean_columns)
  have "\<forall>r \<in> set (rows (df_clean c)). complete (df_clean c) r"
    using rws by (simp add: complete_cong[OF cls])
  then have "\<forall>r \<in> set (rows (df_clean c)). \<forall>n \<in> set cols_of_interest.
            row_get (df_clean c) r n \<noteq> NaN"
    by (simp add: complete_def)
  moreover have "\<forall>r \<in> set (rows d). complete d r \<longrightarrow> r \<in> set (rows (df_clean c))"
    using rws by simp
  ultimately show ?thesis using rws by blast
qed

lemmas eval_defs =
  clean_def isnull_sum_def dropna_def convert_severity_def cols_of_interest_def
  cell_at_def py_sorted_def Categorical_def setitem_def columns_def dtypes_def
  demo_def demo_row_def demo_clean_def

lemma clean_demo:
  "clean demo =
     Inr \<lparr>df = demo,
          missing_before =
            [(''Road_surface_type'', 0), (''Weather_conditions'', 1),
             (''Light_conditions'', 0), (''Types_of_Junction'', 0),
             (''Lanes_or_Medians'', 0), (''Cause_of_accident'', 0),
             (''Accident_severity'', 0), (''Type_of_collision'', 0)],
          df_clean = demo_clean\<rparr>"
  by (simp add: eval_defs)

theorem clean_keeps_exactly_complete_rows_witness:
  "clean demo = Inr \<lparr>df = demo,
          missing_before =
            [(''Road_surface_type'', 0), (''Weather_conditions'', 1),
             (''Light_conditions'', 0), (''Types_of_Junction'', 0),
             (''Lanes_or_Medians'', 0), (''Cause_of_accident'', 0),
             (''Accident_severity'', 0), (''Type_of_collision'', 0)],
          df_clean = demo_clean\<rparr>
   \<and> length (rows demo) = 3
   \<and> length (rows demo_clean) = 2
   \<and> list_all (\<lambda>r. list_all (\<lambda>n. row_get demo_clean r n \<noteq> NaN) cols_of_interest)
         (rows demo_clean)
   \<and> rows demo_clean = filter (complete demo) (rows demo)
   \<and> list_all (\<lambda>r. \<not> complete demo r \<or> r \<in> set (rows demo_clean)) (rows demo)"
proof -
  have len: "length (rows demo) = 3" "length (rows demo_clean) = 2"
    by (simp_all add: demo_def demo_clean_def)
  have "(\<forall>r \<in> set (rows demo_clean). \<forall>n \<in> set cols_of_interest. row_get demo_clean r n \<noteq> NaN)
   \<and> rows demo_clean = filter (complete demo) (rows demo)
   \<and> (\<forall>r \<in> set (rows demo). complete demo r \<longrightarrow> r \<in> set (rows demo_clean))"
    using clean_keeps_exactly_complete_rows[OF clean_demo] by simp
  then have "list_all (\<lambda>r. list_all (\<lambda>n. row_get demo_clean r n \<noteq> NaN) cols_of_interest)
         (rows demo_clean)
   \<and> rows demo_clean = filter (complete demo) (rows demo)
   \<and> list_all (\<lambda>r. \<not> complete demo r \<or> r \<in> set (rows demo_clean)) (rows demo)"
    unfolding list_all_iff by blast
  with len clean_demo show ?thesis by blast
qed

text \<open>
  C10. Cleaning is a row filter: the cleaned rows are a subsequence of the input rows, in
  their order and with every cell unchanged; the column labels are the same; the dtype of
  every column other than the severity column is the same; and the loaded table is the
  one the script started from.
\<close>

theorem cleaning_is_a_row_filter:
  assumes "clean d = Inr c"
  shows "subseq (rows (df_clean c)) (rows d)
       \<and> columns (df_clean c) = columns d
       \<and> (\<forall>k < length (header d). columns d ! k \<noteq> ''Accident_severity''
             \<longrightarrow> header (df_clean c) ! k = header d ! k)
       \<and> df c = d"
proof -
  have "subseq (rows (df_clean c)) (rows d)"
    by (simp add: clean_rows[OF assms])
  moreover have "columns (df_clean c) = columns d"
    using assms by (rule clean_columns)
  moreover have "header (df_clean c) ! k = header d ! k"
    if "k < length (header d)" "columns d ! k \<noteq> ''Accident_severity''" for k
    using assms
  proof (cases rule: clean_cases)
    case (1 mb dc)
    have h: "header dc = header d" using 1(2) by (rule dropna_rows)
    then have "columns dc = columns d" by (simp add: columns_def)
    with that h have "header (df_clean c) ! k = header dc ! k"
      by (intro convert_severity_header[OF 1(3)]) simp_all
    with h show ?thesis by simp
  qed
  moreover have "df c = d"
    using assms by (cases rule: clean_cases)
  ultimately show ?thesis by blast
qed

theorem cleaning_is_a_row_filter_witness:
  "subseq (rows demo_clean) (rows demo)
   \<and> length (rows demo_clean) = 2 \<and> length (rows demo) = 3
   \<and> columns demo_clean = columns demo
   \<and> list_all (\<lambda>k. columns demo ! k = ''Accident_severity''
                    \<or> header demo_clean ! k = header demo ! k) [0..<length (header demo)]
   \<and> length (header demo) = 9
   \<and> header demo_clean ! 6 \<noteq> header demo ! 6
   \<and> header demo_clean ! 1 = header demo ! 1"
proof -
  have "subseq (rows demo_clean) (rows demo)
       \<and> columns demo_clean = columns demo
       \<and> (\<forall>k < length (header demo). columns demo ! k \<noteq> ''Accident_severity''
             \<longrightarrow> header demo_clean ! k = header demo ! k)"
    using cleaning_is_a_row_filter[OF clean_demo] by simp
  then have "subseq (rows demo_clean) (rows demo)
       \<and> columns demo_clean = columns demo
       \<and> list_all (\<lambda>k. columns demo ! k = ''Accident_severity''
                    \<or> header demo_clean ! k = header demo ! k) [0..<length (header demo)]"
    unfolding list_all_iff by auto
  moreover have "length (rows demo_clean) = 2 \<and> length (rows demo) = 3
      \<and> length (header demo) = 9
      \<and> header demo_clean ! 6 \<noteq> header demo ! 6
      \<and> header demo_clean ! 1 = header demo ! 1"
    by (simp add: demo_clean_def demo_def cols_of_interest_def)
  ultimately show ?thesis by blast
qed

subsection \<open>Severity categories\<close>




lemma dtypes_setitem:
  "i < length (header d) \<Longrightarrow> dtypes (setitem d i vals t) ! i = t"
  by (simp add: setitem_def dtypes_def)

lemma crosstab_cases:
  assumes "crosstab d a b = Inr t"
  obtains i j where
    "col_index (columns d) a = Some i"
    "col_index (columns d) b = Some j"
    "t_index t = labels (dtypes d ! i) (map fst (pairs d i j))"
    "t_columns t = labels (dtypes d ! j) (map snd (pairs d i j))"
    "t_values t = map (\<lambda>x. map (\<lambda>y. count_list (pairs d i j) (x, y)) (t_columns t)) (t_index t)"
proof (cases "col_index (columns d) a")
  case None
  with assms show ?thesis by (simp add: crosstab_def)
next
  case i: (Some i)
  show ?thesis
  proof (cases "col_index (columns d) b")
    case None
    with assms i show ?thesis by (simp add: crosstab_def)
  next
    case j: (Some j)
    from assms i j have
      t: "t = \<lparr>t_index = labels (dtypes d ! i) (map fst (pairs d i j)),
               t_columns = labels (dtypes d ! j) (map snd (pairs d i j)),
               t_values = map (\<lambda>x. map (\<lambda>y. count_list (pairs d i j) (x, y))
                                  (labels (dtypes d ! j) (map snd (pairs d i j))))
                            (labels (dtypes d ! i) (map fst (pairs d i j)))\<rparr>"
      by (simp add: crosstab_def Let_def)
    show ?thesis
      by (rule that[OF i j]) (simp_all add: t)
  qed
qed








subsection \<open>Chi-square test\<close>

lemma chi2_contingency_cases:
  assumes "chi2_contingency sf obs = Inr (c, p, k, ex)"
  obtains
    (degenerate) "size2 obs \<noteq> 0" "Fin 0 \<notin> set (concat (expected_freq obs))"
      "ex = expected_freq obs"
      "k = int (size2 obs) - (int (length obs) + int (ncols obs)) + 2 - 1"
      "k = 0" "c = Fin 0" "p = Fin 1"
  | (yates) "size2 obs \<noteq> 0" "Fin 0 \<notin> set (concat (expected_freq obs))"
      "ex = expected_freq obs"
      "k = int (size2 obs) - (int (length obs) + int (ncols obs)) + 2 - 1"
      "k = 1"
      "c = power_divergence
             (map (\<lambda>(r, es). map (\<lambda>(ob, e). yates ob e) (zip r es)) (zip obs (expected_freq obs)))
             (expected_freq obs)"
      "p = sf c k"
  | (pearson) "size2 obs \<noteq> 0" "Fin 0 \<notin> set (concat (expected_freq obs))"
      "ex = expected_freq obs"
      "k = int (size2 obs) - (int (length obs) + int (ncols obs)) + 2 - 1"
      "k \<noteq> 0" "k \<noteq> 1"
      "c = power_divergence (map (map (\<lambda>ob. Fin (of_nat ob))) obs) (expected_freq obs)"
      "p = sf c k"
proof -
  let ?k = "int (size2 obs) - (int (length obs) + int (ncols obs)) + 2 - 1"
  from assms have sz: "size2 obs \<noteq> 0"
    by (auto simp: chi2_contingency_def split: if_splits)
  from assms sz have nz: "Fin 0 \<notin> set (concat (expected_freq obs))"
    by (auto simp: chi2_contingency_def Let_def split: if_splits)
  show ?thesis
  proof (cases "?k = 0")
    case True
    with assms sz nz have "c = Fin 0" "p = Fin 1" "k = ?k" "ex = expected_freq obs"
      by (simp_all add: chi2_contingency_def Let_def)
    with sz nz True show ?thesis by (intro degenerate) simp_all
  next
    case k0: False
    show ?thesis
    proof (cases "?k = 1")
      case True
      with assms sz nz k0 have
        "c = power_divergence
             (map (\<lambda>(r, es). map (\<lambda>(ob, e). yates ob e) (zip r es)) (zip obs (expected_freq obs)))
             (expected_freq obs)"
        "p = sf c k" "k = ?k" "ex = expected_freq obs"
        by (auto simp: chi2_contingency_def Let_def)
      with sz nz True show ?thesis by (intro yates) simp_all
    next
      case False
      with assms sz nz k0 have
        "c = power_divergence (map (map (\<lambda>ob. Fin (of_nat ob))) obs) (expected_freq obs)"
        "p = sf c k" "k = ?k" "ex = expected_freq obs"
        by (auto simp: chi2_contingency_def Let_def)
      with sz nz k0 False show ?thesis by (intro pearson) simp_all
    qed
  qed
qed

lemma chi2_contingency_dof:
  assumes "chi2_contingency sf obs = Inr (c, p, k, ex)"
  shows "k = (int (length obs) - 1) * (int (ncols obs) - 1)"
proof -
  from assms have "k = int (size2 obs) - (int (length obs) + int (ncols obs)) + 2 - 1"
    by (cases rule: chi2_contingency_cases)
  then show ?thesis by (simp add: size2_def algebra_simps)
qed

lemma run_chi2_cases:
  assumes "run_chi2 sf d var = Inr res"
  obtains t c p k ex where
    "crosstab d var ''Accident_severity'' = Inr t"
    "chi2_contingency sf (t_values t) = Inr (c, p, k, ex)"
    "chi2 res = c" "p_value res = p" "dof res = k" "table_shape res = shape t"
proof (cases "crosstab d var ''Accident_severity''")
  case (Inl e)
  with assms show ?thesis by (simp add: run_chi2_def)
next
  case t: (Inr t)
  show ?thesis
  proof (cases "chi2_contingency sf (t_values t)")
    case (Inl e)
    with assms t show ?thesis by (simp add: run_chi2_def)
  next
    case (Inr q)
    obtain c p k ex where q: "q = (c, p, k, ex)" by (cases q)
    with assms t Inr have "res = \<lparr>chi2 = c, p_value = p, dof = k, table_shape = shape t\<rparr>"
      by (simp add: run_chi2_def)
    then have "chi2 res = c" "p_value res = p" "dof res = k" "table_shape res = shape t"
      by simp_all
    with t Inr q show ?thesis by (intro that) simp_all
  qed
qed

lemma crosstab_values_shape:
  assumes "crosstab d a b = Inr t"
  shows "length (t_values t) = length (t_index t)"
    and "\<forall>r \<in> set (t_values t). length r = length (t_columns t)"
    and "t_index t \<noteq> [] \<Longrightarrow> ncols (t_values t) = length (t_columns t)"
proof -
  from assms have v: "\<exists>f. t_values t = map (\<lambda>x. map (f x) (t_columns t)) (t_index t)"
    by (cases rule: crosstab_cases) auto
  then obtain f where f: "t_values t = map (\<lambda>x. map (f x) (t_columns t)) (t_index t)" ..
  show "length (t_values t) = length (t_index t)" by (simp add: f)
  show "\<forall>r \<in> set (t_values t). length r = length (t_columns t)" by (auto simp: f)
  show "ncols (t_values t) = length (t_columns t)" if "t_index t \<noteq> []"
    using that by (cases "t_index t") (simp_all add: f ncols_def)
qed

text \<open>
  C5. The degrees of freedom recorded for a tested variable are \<open>(r - 1) (c - 1)\<close>, where
  \<open>r\<close> and \<open>c\<close> are the numbers of rows and of columns of its contingency table, which
  are also the recorded table shape.
\<close>

theorem dof_of_contingency_table:
  assumes "run_chi2 sf d var = Inr res"
  shows "\<exists>t. crosstab d var ''Accident_severity'' = Inr t
           \<and> table_shape res = (length (t_index t), length (t_columns t))
           \<and> dof res = (int (length (t_index t)) - 1) * (int (length (t_columns t)) - 1)"
  using assms
proof (cases rule: run_chi2_cases)
  case (1 t c p k ex)
  from 1(2) have "size2 (t_values t) \<noteq> 0" by (cases rule: chi2_contingency_cases)
  then have "t_values t \<noteq> []" by (auto simp: size2_def)
  then have ne: "t_index t \<noteq> []" using crosstab_values_shape(1)[OF 1(1)] by auto
  have "k = (int (length (t_values t)) - 1) * (int (ncols (t_values t)) - 1)"
    using 1(2) by (rule chi2_contingency_dof)
  then have "k = (int (length (t_index t)) - 1) * (int (length (t_columns t)) - 1)"
    using crosstab_values_shape(1,3)[OF 1(1)] ne by simp
  with 1 show ?thesis by (simp add: shape_def)
qed

lemma clean_survey:
  "clean survey =
     Inr \<lparr>df = survey,
          missing_before = map (\<lambda>n. (n, 0)) cols_of_interest,
          df_clean = survey_clean\<rparr>"
  by (simp add: eval_defs survey_def survey_clean_def)

lemma crosstab_survey:
  "crosstab survey_clean ''Weather_conditions'' ''Accident_severity'' = Inr survey_table"
  by (simp add: crosstab_def pairs_def labels_def eval_defs survey_def survey_clean_def
        survey_table_def)

lemmas chi2_defs =
  chi2_contingency_def size2_def ncols_def expected_freq_def row_totals_def col_totals_def
  grand_total_def entry_def power_divergence_def xsum_def

lemma chi2_survey:
  "chi2_contingency sf (t_values survey_table) =
     Inr (Fin (5 / 28), sf (Fin (5 / 28)) 1, 1,
          [[Fin (9 / 5), Fin (21 / 5)], [Fin (6 / 5), Fin (14 / 5)]])"
  by (simp add: survey_table_def chi2_defs Let_def upt_rec[of 0] upt_rec[of 1]
        power2_eq_square)

lemma shape_survey: "shape survey_table = (2, 2)"
  by (simp add: shape_def survey_table_def)

lemma run_chi2_survey:
  "run_chi2 sf survey_clean ''Weather_conditions'' =
     Inr \<lparr>chi2 = Fin (5 / 28), p_value = sf (Fin (5 / 28)) 1, dof = 1, table_shape = (2, 2)\<rparr>"
  by (simp add: run_chi2_def crosstab_survey chi2_survey shape_survey)

theorem dof_of_contingency_table_witness:
  "run_chi2 (\<lambda>x k. Fin 0) survey_clean ''Weather_conditions'' =
     Inr \<lparr>chi2 = Fin (5 / 28), p_value = Fin 0, dof = 1, table_shape = (2, 2)\<rparr>
   \<and> crosstab survey_clean ''Weather_conditions'' ''Accident_severity'' = Inr survey_table
   \<and> length (t_index survey_table) = 2 \<and> length (t_columns survey_table) = 2
   \<and> (1::int) = (int (length (t_index survey_table)) - 1)
                  * (int (length (t_columns survey_table)) - 1)"
proof -
  let ?sf = "\<lambda>(x::xfloat) (k::int). Fin 0"
  have r: "run_chi2 ?sf survey_clean ''Weather_conditions'' =
     Inr \<lparr>chi2 = Fin (5 / 28), p_value = Fin 0, dof = 1, table_shape = (2, 2)\<rparr>"
    by (rule run_chi2_survey)
  from dof_of_contingency_table[OF r] obtain t where
    t: "crosstab survey_clean ''Weather_conditions'' ''Accident_severity'' = Inr t"
    and sh: "(2::nat, 2::nat) = (length (t_index t), length (t_columns t))"
    and k: "(1::int) = (int (length (t_index t)) - 1) * (int (length (t_columns t)) - 1)"
    by auto
  from t crosstab_survey have "t = survey_table" by simp
  with r t sh k show ?thesis by simp
qed



subsection \<open>A table that is empty after cleaning\<close>









subsection \<open>Row-normalised proportions\<close>

lemma sum_list_quotients:
  fixes s :: nat
  assumes "s \<noteq> 0"
  shows "(\<Sum>x\<leftarrow>row. (of_nat x :: rat) / of_nat s) = of_nat (sum_list row) / of_nat s"
  by (induction row) (simp_all add: add_divide_distrib)

lemma sum_list_abs_bound:
  fixes f g :: "'a \<Rightarrow> rat"
  assumes "\<forall>x \<in> set xs. \<bar>f x\<bar> \<le> g x"
  shows "\<bar>\<Sum>x\<leftarrow>xs. f x\<bar> \<le> (\<Sum>x\<leftarrow>xs. g x)"
  using assms
proof (induction xs)
  case Nil
  show ?case by simp
next
  case (Cons a xs)
  then have "\<bar>f a\<bar> \<le> g a" "\<bar>\<Sum>x\<leftarrow>xs. f x\<bar> \<le> (\<Sum>x\<leftarrow>xs. g x)" by simp_all
  then show ?case by simp
qed

lemma rounded_quotients_sum:
  fixes s :: nat and rnd :: "rat \<Rightarrow> rat" and u :: rat
  assumes rnd: "\<forall>q. \<bar>rnd q - q\<bar> \<le> u * \<bar>q\<bar>" and s: "s = sum_list row" "s \<noteq> 0"
  shows "\<bar>(\<Sum>x\<leftarrow>row. rnd (of_nat x / of_nat s)) - 1\<bar> \<le> u"
proof -
  let ?q = "\<lambda>x::nat. (of_nat x :: rat) / of_nat s"
  have one: "(\<Sum>x\<leftarrow>row. ?q x) = 1"
    using s by (simp add: sum_list_quotients)
  have "(\<Sum>x\<leftarrow>row. rnd (?q x)) - 1 = (\<Sum>x\<leftarrow>row. rnd (?q x)) - (\<Sum>x\<leftarrow>row. ?q x)"
    by (simp add: one)
  also have "\<dots> = (\<Sum>x\<leftarrow>row. rnd (?q x) - ?q x)"
    by (simp add: sum_list_subtractf)
  finally have "\<bar>(\<Sum>x\<leftarrow>row. rnd (?q x)) - 1\<bar> = \<bar>\<Sum>x\<leftarrow>row. rnd (?q x) - ?q x\<bar>"
    by simp
  also have "\<dots> \<le> (\<Sum>x\<leftarrow>row. u * ?q x)"
  proof (rule sum_list_abs_bound)
    show "\<forall>x \<in> set row. \<bar>rnd (?q x) - ?q x\<bar> \<le> u * ?q x"
    proof
      fix x
      have "\<bar>rnd (?q x) - ?q x\<bar> \<le> u * \<bar>?q x\<bar>" using rnd by blast
      then show "\<bar>rnd (?q x) - ?q x\<bar> \<le> u * ?q x" by simp
    qed
  qed
  also have "\<dots> = u * (\<Sum>x\<leftarrow>row. ?q x)"
    by (rule sum_list_const_mult)
  finally show ?thesis by (simp add: one)
qed

lemma fillna_true_div:
  "s \<noteq> 0 \<Longrightarrow> fillna 0 (true_div rnd x s) = Fin (rnd (of_nat x / of_nat s))"
  by (simp add: true_div_def)

lemma normalize_rows_nth:
  "i < length vs \<Longrightarrow>
   normalize_rows rnd vs ! i =
     map (\<lambda>x. fillna 0 (true_div rnd x (sum_list (vs ! i)))) (vs ! i)"
  by (simp add: normalize_rows_def)

text \<open>
  C6. With a division that rounds with relative error at most \<open>u\<close>, the entries of a
  normalised row whose counts do not sum to zero are finite and sum to 1 within \<open>u\<close>;
  a row whose counts sum to zero is mapped to zeros. The script's normalised table is
  this normalisation of its weather by severity table.
\<close>

theorem normalized_rows_sum_to_one:
  assumes "\<forall>q. \<bar>rnd q - q\<bar> \<le> u * \<bar>q\<bar>" and "i < length vs"
  shows "(sum_list (vs ! i) \<noteq> 0 \<longrightarrow>
           (\<exists>qs. normalize_rows rnd vs ! i = map Fin qs \<and> \<bar>sum_list qs - 1\<bar> \<le> u))
       \<and> (sum_list (vs ! i) = 0 \<longrightarrow>
           normalize_rows rnd vs ! i = map (\<lambda>x. Fin 0) (vs ! i))
       \<and> (script sf rnd d = Inr out \<longrightarrow>
           pivot_w_s_norm out = normalize_rows rnd (t_values (pivot_w_s out)))"
proof (intro conjI impI)
  let ?row = "vs ! i"
  assume nz: "sum_list ?row \<noteq> 0"
  let ?qs = "map (\<lambda>x. rnd (of_nat x / of_nat (sum_list ?row))) ?row"
  have "normalize_rows rnd vs ! i = map Fin ?qs"
    unfolding normalize_rows_nth[OF assms(2)] fillna_true_div[OF nz] by (simp add: o_def)
  moreover have "\<bar>sum_list ?qs - 1\<bar> \<le> u"
    using rounded_quotients_sum[OF assms(1) refl nz] by simp
  ultimately show "\<exists>qs. normalize_rows rnd vs ! i = map Fin qs \<and> \<bar>sum_list qs - 1\<bar> \<le> u"
    by blast
next
  let ?row = "vs ! i"
  assume z: "sum_list ?row = 0"
  then have "\<forall>x \<in> set ?row. x = 0" by simp
  then have "map (\<lambda>x. fillna 0 (true_div rnd x 0)) ?row = map (\<lambda>x. Fin 0) ?row"
    by (intro map_cong) (simp_all add: true_div_def)
  then show "normalize_rows rnd vs ! i = map (\<lambda>x. Fin 0) ?row"
    unfolding normalize_rows_nth[OF assms(2)] z .
next
  assume "script sf rnd d = Inr out"
  then show "pivot_w_s_norm out = normalize_rows rnd (t_values (pivot_w_s out))"
    by (auto simp: script_def split: sum.splits)
qed

lemma overall_counts_survey:
  "overall_counts survey_clean =
     Inr \<lparr>counts_weather = [(Str ''Clear'', 6), (Str ''Rain'', 4)],
          counts_road = [(Str ''Dry'', 10)],
          counts_light = [(Str ''Day'', 10)],
          counts_junction = [(Str ''Y'', 10)],
          counts_lanes = [(Str ''One'', 10)],
          counts_cause = [(Str ''Speed'', 10)]\<rparr>"
  by (simp add: overall_counts_def getitem_def value_counts_def head_def eval_defs
        survey_def survey_clean_def)

lemma crosstab_survey_heat:
  "crosstab survey_clean ''Weather_conditions'' ''Road_surface_type'' =
     Inr \<lparr>t_index = [Str ''Clear'', Str ''Rain''], t_columns = [Str ''Dry''],
          t_values = [[6], [4]]\<rparr>"
  by (simp add: crosstab_def pairs_def labels_def eval_defs survey_def survey_clean_def)

lemma chi2_one_row:
  "chi2_contingency sf [[3, 7]] = Inr (Fin 0, Fin 1, 0, [[Fin 3, Fin 7]])"
  by (simp add: chi2_defs Let_def upt_rec[of 0] upt_rec[of 1])

lemma crosstab_survey_road:
  "crosstab survey_clean ''Road_surface_type'' ''Accident_severity'' =
     Inr \<lparr>t_index = [Str ''Dry''], t_columns = [Str ''Fatal'', Str ''Slight''],
          t_values = [[3, 7]]\<rparr>"
  by (simp add: crosstab_def pairs_def labels_def eval_defs survey_def survey_clean_def)

lemma run_chi2_survey_road:
  "run_chi2 sf survey_clean ''Road_surface_type'' =
     Inr \<lparr>chi2 = Fin 0, p_value = Fin 1, dof = 0, table_shape = (1, 2)\<rparr>"
  by (simp add: run_chi2_def crosstab_survey_road chi2_one_row shape_def)

lemma crosstab_survey_light:
  "crosstab survey_clean ''Light_conditions'' ''Accident_severity'' =
     Inr \<lparr>t_index = [Str ''Day''], t_columns = [Str ''Fatal'', Str ''Slight''],
          t_values = [[3, 7]]\<rparr>"
  by (simp add: crosstab_def pairs_def labels_def eval_defs survey_def survey_clean_def)

lemma run_chi2_survey_light:
  "run_chi2 sf survey_clean ''Light_conditions'' =
     Inr \<lparr>chi2 = Fin 0, p_value = Fin 1, dof = 0, table_shape = (1, 2)\<rparr>"
  by (simp add: run_chi2_def crosstab_survey_light chi2_one_row shape_def)

lemma crosstab_survey_junction:
  "crosstab survey_clean ''Types_of_Junction'' ''Accident_severity'' =
     Inr \<lparr>t_index = [Str ''Y''], t_columns = [Str ''Fatal'', Str ''Slight''],
          t_values = [[3, 7]]\<rparr>"
  by (simp add: crosstab_def pairs_def labels_def eval_defs survey_def survey_clean_def)

lemma run_chi2_survey_junction:
  "run_chi2 sf survey_clean ''Types_of_Junction'' =
     Inr \<lparr>chi2 = Fin 0, p_value = Fin 1, dof = 0, table_shape = (1, 2)\<rparr>"
  by (simp add: run_chi2_def crosstab_survey_junction chi2_one_row shape_def)

lemma script_survey:
  "script sf rnd survey =
     Inr \<lparr>o_cleaned = \<lparr>df = survey, missing_before = map (\<lambda>n. (n, 0)) cols_of_interest,
                        df_clean = survey_clean\<rparr>,
          o_counts = \<lparr>counts_weather = [(Str ''Clear'', 6), (Str ''Rain'', 4)],
                       counts_road = [(Str ''Dry'', 10)],
                       counts_light = [(Str ''Day'', 10)],
                       counts_junction = [(Str ''Y'', 10)],
                       counts_lanes = [(Str ''One'', 10)],
                       counts_cause = [(Str ''Speed'', 10)]\<rparr>,
          pivot_w_s = survey_table,
          pivot_w_s_norm = normalize_rows rnd (t_values survey_table),
          pivot_heat = \<lparr>t_index = [Str ''Clear'', Str ''Rain''], t_columns = [Str ''Dry''],
                         t_values = [[6], [4]]\<rparr>,
          tests =
            [(''Weather_conditions'',
              \<lparr>chi2 = Fin (5 / 28), p_value = sf (Fin (5 / 28)) 1, dof = 1, table_shape = (2, 2)\<rparr>),
             (''Road_surface_type'',
              \<lparr>chi2 = Fin 0, p_value = Fin 1, dof = 0, table_shape = (1, 2)\<rparr>),
             (''Light_conditions'',
              \<lparr>chi2 = Fin 0, p_value = Fin 1, dof = 0, table_shape = (1, 2)\<rparr>),
             (''Types_of_Junction'',
              \<lparr>chi2 = Fin 0, p_value = Fin 1, dof = 0, table_shape = (1, 2)\<rparr>)],
          cleaned_for_analysis_csv = (cols_of_interest, rows survey),
          chi2_tests_summary_csv =
            ([''variable'', ''chi2'', ''p_value'', ''dof'', ''table_shape''],
             [(''Weather_conditions'',
              \<lparr>chi2 = Fin (5 / 28), p_value = sf (Fin (5 / 28)) 1, dof = 1, table_shape = (2, 2)\<rparr>),
             (''Road_surface_type'',
              \<lparr>chi2 = Fin 0, p_value = Fin 1, dof = 0, table_shape = (1, 2)\<rparr>),
             (''Light_conditions'',
              \<lparr>chi2 = Fin 0, p_value = Fin 1, dof = 0, table_shape = (1, 2)\<rparr>),
             (''Types_of_Junction'',
              \<lparr>chi2 = Fin 0, p_value = Fin 1, dof = 0, table_shape = (1, 2)\<rparr>)])\<rparr>"
proof -
  have cols: "columns survey_clean = cols_of_interest"
    by (simp add: columns_def survey_clean_def cols_of_interest_def)
  have rws: "rows survey_clean = rows survey" by (simp add: survey_clean_def)
  show ?thesis
    by (simp add: script_def clean_survey overall_counts_survey crosstab_survey
        crosstab_survey_heat run_chi2_survey run_chi2_survey_road run_chi2_survey_light
        run_chi2_survey_junction cols rws)
qed

theorem normalized_rows_sum_to_one_witness:
  "(\<forall>q::rat. \<bar>q * (1025 / 1024) - q\<bar> \<le> 1 / 1024 * \<bar>q\<bar>)
   \<and> normalize_rows (\<lambda>q. q * (1025 / 1024)) [[1, 5], [0, 0]] =
       [map Fin [1025 / 6144, 5125 / 6144], [Fin 0, Fin 0]]
   \<and> \<bar>sum_list [1025 / 6144, 5125 / 6144 :: rat] - 1\<bar> \<le> 1 / 1024
   \<and> (\<exists>out. script (\<lambda>x k. Fin 0) (\<lambda>q. q * (1025 / 1024)) survey = Inr out
          \<and> pivot_w_s out = survey_table
          \<and> pivot_w_s_norm out =
              normalize_rows (\<lambda>q. q * (1025 / 1024)) (t_values survey_table))"
proof -
  let ?rnd = "\<lambda>q::rat. q * (1025 / 1024)"
  let ?vs = "[[1, 5], [0, 0 :: nat]]"
  have rnd: "\<forall>q::rat. \<bar>?rnd q - q\<bar> \<le> 1 / 1024 * \<bar>q\<bar>"
  proof
    fix q :: rat
    have "?rnd q - q = q * (1 / 1024)" by (simp add: algebra_simps)
    then show "\<bar>?rnd q - q\<bar> \<le> 1 / 1024 * \<bar>q\<bar>" by (simp add: abs_mult)
  qed
  have val: "normalize_rows ?rnd ?vs = [map Fin [1025 / 6144, 5125 / 6144], [Fin 0, Fin 0]]"
    by (simp add: normalize_rows_def true_div_def)
  obtain out where out: "script (\<lambda>x k. Fin 0) ?rnd survey = Inr out"
    "pivot_w_s out = survey_table"
    using script_survey[of "\<lambda>x k. Fin 0" ?rnd] by simp
  have l0: "0 < length ?vs" and l1: "1 < length ?vs" by simp_all
  note t0 = normalized_rows_sum_to_one[OF rnd l0, of "\<lambda>x k. Fin 0" survey out]
  note t1 = normalized_rows_sum_to_one[OF rnd l1, of "\<lambda>x k. Fin 0" survey out]
  from t0 obtain qs where qs: "normalize_rows ?rnd ?vs ! 0 = map Fin qs"
    "\<bar>sum_list qs - 1\<bar> \<le> 1 / 1024"
    by auto
  from qs(1) val have "map Fin qs = map Fin [1025 / 6144, 5125 / 6144]" by simp
  then have "qs = [1025 / 6144, 5125 / 6144]" by (auto simp: map_eq_Cons_conv)
  with qs(2) have s: "\<bar>sum_list [1025 / 6144, 5125 / 6144 :: rat] - 1\<bar> \<le> 1 / 1024" by simp
  from t1 have "normalize_rows ?rnd ?vs ! 1 = [Fin 0, Fin 0]" by simp
  from t0 out have "pivot_w_s_norm out = normalize_rows ?rnd (t_values survey_table)"
    by simp
  with rnd val s out show ?thesis by blast
qed

subsection \<open>Frequency tables\<close>

lemma sum_list_sort_key:
  fixes g :: "'a \<Rightarrow> nat"
  shows "sum_list (map g (sort_key f xs)) = sum_list (map g xs)"
proof -
  have "sum_list (map g (sort_key f xs)) = sum_mset (image_mset g (mset (sort_key f xs)))"
    by (simp flip: sum_mset_sum_list)
  also have "\<dots> = sum_mset (image_mset g (mset xs))" by simp
  also have "\<dots> = sum_list (map g xs)" by (simp flip: sum_mset_sum_list)
  finally show ?thesis .
qed

lemma sum_counts_unique: "sum_list (map (count_list xs) (unique xs)) = length xs"
proof -
  have "sum_list (map (count_list xs) (unique xs)) = sum (count_list xs) (set (unique xs))"
    using distinct_unique[of xs] by (simp add: sum_list_distinct_conv_sum_set)
  also have "\<dots> = length xs"
    by (simp add: set_unique sum_count_set)
  finally show ?thesis .
qed

lemma value_counts_sum:
  assumes "NaN \<notin> set xs"
  shows "sum_list (map snd (value_counts xs)) = length xs"
proof -
  from assms have f: "filter (\<lambda>v. v \<noteq> NaN) xs = xs" by (induction xs) auto
  have "sum_list (map snd (value_counts xs))
        = sum_list (map snd (map (\<lambda>v. (v, count_list xs v)) (unique xs)))"
    unfolding value_counts_def f by (rule sum_list_sort_key)
  also have "\<dots> = sum_list (map (count_list xs) (unique xs))" by (simp add: o_def)
  finally show ?thesis by (simp add: sum_counts_unique)
qed

lemma length_value_counts:
  "NaN \<notin> set xs \<Longrightarrow> length (value_counts xs) = length (unique xs)"
proof -
  assume "NaN \<notin> set xs"
  then have "filter (\<lambda>v. v \<noteq> NaN) xs = xs" by (induction xs) auto
  then show ?thesis by (simp add: value_counts_def)
qed

lemma sum_list_take_le:
  fixes ns :: "nat list"
  shows "sum_list (take n ns) \<le> sum_list ns"
proof -
  have "sum_list ns = sum_list (take n ns) + sum_list (drop n ns)"
    by (metis append_take_drop_id sum_list.append)
  then show ?thesis by simp
qed

lemma head_sum:
  fixes ys :: "('a \<times> nat) list"
  shows "sum_list (map snd (head n ys)) \<le> sum_list (map snd ys)"
    and "length ys \<le> n \<Longrightarrow> head n ys = ys"
  by (simp_all add: head_def sum_list_take_le flip: take_map)

text \<open>A column listed in \<open>cols_of_interest\<close> has no missing cell after cleaning.\<close>

lemma clean_column_no_NaN:
  assumes "clean d = Inr c" and "n \<in> set cols_of_interest"
    and "getitem (df_clean c) n = Inr vs"
  shows "NaN \<notin> set vs" and "length vs = length (rows (df_clean c))"
proof -
  from assms(3) obtain i where
    i: "col_index (columns (df_clean c)) n = Some i"
    and vs: "vs = map (\<lambda>r. cell_at r i) (rows (df_clean c))"
    by (auto simp: getitem_def split: option.splits)
  show "length vs = length (rows (df_clean c))" by (simp add: vs)
  have cols: "columns (df_clean c) = columns d" using assms(1) by (rule clean_columns)
  show "NaN \<notin> set vs"
  proof
    assume "NaN \<in> set vs"
    then obtain r where r: "r \<in> set (rows (df_clean c))" "cell_at r i = NaN"
      by (auto simp: vs)
    from r(1) have "complete d r" by (simp add: clean_rows[OF assms(1)])
    with assms(2) have "row_get d r n \<noteq> NaN" by (simp add: complete_def)
    with i cols r(2) show False by (simp add: row_get_def)
  qed
qed

lemma overall_counts_cases:
  assumes "overall_counts d = Inr k"
  obtains w r l j m a where
    "getitem d ''Weather_conditions'' = Inr w" "counts_weather k = value_counts w"
    "getitem d ''Road_surface_type'' = Inr r" "counts_road k = value_counts r"
    "getitem d ''Light_conditions'' = Inr l" "counts_light k = value_counts l"
    "getitem d ''Types_of_Junction'' = Inr j" "counts_junction k = value_counts j"
    "getitem d ''Lanes_or_Medians'' = Inr m" "counts_lanes k = value_counts m"
    "getitem d ''Cause_of_accident'' = Inr a" "counts_cause k = head 15 (value_counts a)"
proof -
  from assms obtain w where w: "getitem d ''Weather_conditions'' = Inr w"
    by (cases "getitem d ''Weather_conditions''") (simp_all add: overall_counts_def)
  from assms w obtain r where r: "getitem d ''Road_surface_type'' = Inr r"
    by (cases "getitem d ''Road_surface_type''") (simp_all add: overall_counts_def)
  from assms w r obtain l where l: "getitem d ''Light_conditions'' = Inr l"
    by (cases "getitem d ''Light_conditions''") (simp_all add: overall_counts_def)
  from assms w r l obtain j where j: "getitem d ''Types_of_Junction'' = Inr j"
    by (cases "getitem d ''Types_of_Junction''") (simp_all add: overall_counts_def)
  from assms w r l j obtain m where m: "getitem d ''Lanes_or_Medians'' = Inr m"
    by (cases "getitem d ''Lanes_or_Medians''") (simp_all add: overall_counts_def)
  from assms w r l j m obtain a where a: "getitem d ''Cause_of_accident'' = Inr a"
    by (cases "getitem d ''Cause_of_accident''") (simp_all add: overall_counts_def)
  from assms w r l j m a have
    k: "k = \<lparr>counts_weather = value_counts w, counts_road = value_counts r,
             counts_light = value_counts l, counts_junction = value_counts j,
             counts_lanes = value_counts m, counts_cause = head 15 (value_counts a)\<rparr>"
    by (simp add: overall_counts_def)
  show ?thesis
    by (rule that[OF w _ r _ l _ j _ m _ a]) (simp_all add: k)
qed

text \<open>
  C3, as the script has it. The counts of each of the five full frequency tables
  (weather, road surface, light, junction, lanes) sum to the number of cleaned rows. The
  table of causes keeps the fifteen most frequent causes only: its counts sum to at most
  the number of cleaned rows, and to exactly that number when the cleaned rows have at
  most fifteen distinct causes.
\<close>

theorem frequency_counts_sum:
  assumes "clean d = Inr c" and "overall_counts (df_clean c) = Inr k"
  shows "sum_list (map snd (counts_weather k)) = length (rows (df_clean c))
       \<and> sum_list (map snd (counts_road k)) = length (rows (df_clean c))
       \<and> sum_list (map snd (counts_light k)) = length (rows (df_clean c))
       \<and> sum_list (map snd (counts_junction k)) = length (rows (df_clean c))
       \<and> sum_list (map snd (counts_lanes k)) = length (rows (df_clean c))
       \<and> sum_list (map snd (counts_cause k)) \<le> length (rows (df_clean c))
       \<and> (\<forall>a. getitem (df_clean c) ''Cause_of_accident'' = Inr a \<and> length (unique a) \<le> 15
             \<longrightarrow> sum_list (map snd (counts_cause k)) = length (rows (df_clean c)))"
  using assms(2)
proof (cases rule: overall_counts_cases)
  case (1 w r l j m a)
  have full: "sum_list (map snd (value_counts vs)) = length (rows (df_clean c))"
    if "getitem (df_clean c) n = Inr vs" "n \<in> set cols_of_interest" for n vs
    using clean_column_no_NaN[OF assms(1) that(2) that(1)] by (simp add: value_counts_sum)
  have "sum_list (map snd (counts_weather k)) = length (rows (df_clean c))"
    using full[OF 1(1)] 1(2) by (simp add: cols_of_interest_def)
  moreover have "sum_list (map snd (counts_road k)) = length (rows (df_clean c))"
    using full[OF 1(3)] 1(4) by (simp add: cols_of_interest_def)
  moreover have "sum_list (map snd (counts_light k)) = length (rows (df_clean c))"
    using full[OF 1(5)] 1(6) by (simp add: cols_of_interest_def)
  moreover have "sum_list (map snd (counts_junction k)) = length (rows (df_clean c))"
    using full[OF 1(7)] 1(8) by (simp add: cols_of_interest_def)
  moreover have "sum_list (map snd (counts_lanes k)) = length (rows (df_clean c))"
    using full[OF 1(9)] 1(10) by (simp add: cols_of_interest_def)
  moreover have ca: "sum_list (map snd (value_counts a)) = length (rows (df_clean c))"
    using full[OF 1(11)] by (simp add: cols_of_interest_def)
  have "sum_list (map snd (counts_cause k)) \<le> length (rows (df_clean c))"
    using head_sum(1)[of 15 "value_counts a"] ca 1(12) by simp
  moreover have "sum_list (map snd (counts_cause k)) = length (rows (df_clean c))"
    if "getitem (df_clean c) ''Cause_of_accident'' = Inr a'" "length (unique a') \<le> 15" for a'
  proof -
    from that(1) 1(11) have "a' = a" by simp
    have "NaN \<notin> set a"
      using clean_column_no_NaN(1)[OF assms(1) _ 1(11)] by (simp add: cols_of_interest_def)
    then have "length (value_counts a) \<le> 15"
      using that(2) \<open>a' = a\<close> by (simp add: length_value_counts)
    then show ?thesis using ca 1(12) by (simp add: head_sum(2))
  qed
  ultimately show ?thesis by blast
qed

theorem frequency_counts_sum_witness:
  "clean survey = Inr \<lparr>df = survey, missing_before = map (\<lambda>n. (n, 0)) cols_of_interest,
                        df_clean = survey_clean\<rparr>
   \<and> overall_counts survey_clean =
       Inr \<lparr>counts_weather = [(Str ''Clear'', 6), (Str ''Rain'', 4)],
            counts_road = [(Str ''Dry'', 10)],
            counts_light = [(Str ''Day'', 10)],
            counts_junction = [(Str ''Y'', 10)],
            counts_lanes = [(Str ''One'', 10)],
            counts_cause = [(Str ''Speed'', 10)]\<rparr>
   \<and> length (rows survey_clean) = 10
   \<and> sum_list (map snd [(Str ''Clear'', 6 :: nat), (Str ''Rain'', 4)]) = length (rows survey_clean)
   \<and> sum_list (map snd [(Str ''Speed'', 10 :: nat)]) = length (rows survey_clean)
   \<and> getitem survey_clean ''Cause_of_accident'' = Inr (replicate 10 (Str ''Speed''))
   \<and> length (unique (replicate 10 (Str ''Speed''))) \<le> 15"
proof -
  have oc: "overall_counts (df_clean \<lparr>df = survey,
              missing_before = map (\<lambda>n. (n, 0)) cols_of_interest,
              df_clean = survey_clean\<rparr>) =
       Inr \<lparr>counts_weather = [(Str ''Clear'', 6), (Str ''Rain'', 4)],
            counts_road = [(Str ''Dry'', 10)],
            counts_light = [(Str ''Day'', 10)],
            counts_junction = [(Str ''Y'', 10)],
            counts_lanes = [(Str ''One'', 10)],
            counts_cause = [(Str ''Speed'', 10)]\<rparr>"
    by (simp add: overall_counts_survey)
  have len: "length (rows survey_clean) = 10"
    by (simp add: survey_clean_def survey_def)
  have g: "getitem survey_clean ''Cause_of_accident'' = Inr (replicate 10 (Str ''Speed''))"
    by (simp add: getitem_def eval_defs survey_clean_def survey_def numeral_eq_Suc)
  have u: "length (unique (replicate 10 (Str ''Speed''))) \<le> 15"
    by (simp add: numeral_eq_Suc)
  from frequency_counts_sum[OF clean_survey oc]
  have "sum_list (map snd [(Str ''Clear'', 6 :: nat), (Str ''Rain'', 4)]) = length (rows survey_clean)
      \<and> sum_list (map snd [(Str ''Speed'', 10 :: nat)]) = length (rows survey_clean)"
    using g u by simp
  with clean_survey overall_counts_survey len g u show ?thesis by blast
qed

lemma clean_many_causes:
  "clean many_causes =
     Inr \<lparr>df = many_causes, missing_before = map (\<lambda>n. (n, 0)) cols_of_interest,
          df_clean = many_causes_clean\<rparr>"
  by (simp add: eval_defs many_causes_def many_causes_clean_def sixteen_causes_def)

lemma counts_cause_many_causes:
  "head 15 (value_counts (map Str sixteen_causes)) =
     map (\<lambda>s. (Str s, 1)) (take 15 sixteen_causes)"
  by (simp add: head_def value_counts_def sixteen_causes_def)

text \<open>
  The claim as stated fails for the table of causes: with sixteen records of sixteen
  different causes, the table keeps fifteen of them and its counts sum to 15.
\<close>

theorem frequency_counts_sum_counterexample:
  "clean many_causes =
     Inr \<lparr>df = many_causes, missing_before = map (\<lambda>n. (n, 0)) cols_of_interest,
          df_clean = many_causes_clean\<rparr>
   \<and> length (rows many_causes_clean) = 16
   \<and> (\<exists>k. overall_counts many_causes_clean = Inr k
          \<and> sum_list (map snd (counts_cause k)) = 15)"
proof -
  have g: "getitem many_causes_clean ''Cause_of_accident'' = Inr (map Str sixteen_causes)"
    by (simp add: getitem_def eval_defs many_causes_clean_def sixteen_causes_def)
  have "\<exists>k. overall_counts many_causes_clean = Inr k"
    by (simp add: overall_counts_def getitem_def columns_def many_causes_clean_def)
  then obtain k where k1: "overall_counts many_causes_clean = Inr k" ..
  then obtain a where "getitem many_causes_clean ''Cause_of_accident'' = Inr a"
    "counts_cause k = head 15 (value_counts a)"
    by (cases rule: overall_counts_cases)
  with g have "counts_cause k = head 15 (value_counts (map Str sixteen_causes))" by simp
  with k1 have k: "overall_counts many_causes_clean = Inr k"
    "counts_cause k = map (\<lambda>s. (Str s, 1)) (take 15 sixteen_causes)"
    by (simp_all add: counts_cause_many_causes)
  have "sum_list (map snd (counts_cause k)) = 15"
    by (simp add: k(2) sixteen_causes_def)
  moreover have "length (rows many_causes_clean) = 16"
    by (simp add: many_causes_clean_def sixteen_causes_def)
  ultimately show ?thesis using clean_many_causes k(1) by blast
qed

subsection \<open>The chi-square statistic\<close>

lemma foldl_xadd_Fin: "foldl xadd (Fin a) (map Fin qs) = Fin (a + sum_list qs)"
  by (induction qs arbitrary: a) (simp_all add: add.assoc)

lemma xsum_Fin: "xsum (map Fin qs) = Fin (sum_list qs)"
  by (simp add: xsum_def foldl_xadd_Fin)

lemma sum_list_concat_map:
  fixes f :: "'a \<Rightarrow> rat list"
  shows "sum_list (concat (map f xs)) = (\<Sum>x\<leftarrow>xs. sum_list (f x))"
  by (induction xs) simp_all

lemma zip_concat_map:
  assumes "\<forall>x \<in> set xs. length (f x) = length (g x)"
  shows "zip (concat (map f xs)) (concat (map g xs)) = concat (map (\<lambda>x. zip (f x) (g x)) xs)"
  using assms by (induction xs) simp_all

lemma map_zip_map_same:
  "map (\<lambda>(x, y). F x y) (zip xs (map G xs)) = map (\<lambda>x. F x (G x)) xs"
  by (induction xs) simp_all

lemma expected_freq_rows:
  assumes "grand_total obs \<noteq> 0"
  shows "expected_freq obs =
         map (\<lambda>row. map (\<lambda>ct. Fin (spec_expected obs row ct)) (col_totals obs)) obs"
  using assms by (simp add: expected_freq_def row_totals_def spec_expected_def)

lemma length_col_totals: "length (col_totals obs) = ncols obs"
  by (simp add: col_totals_def)

text \<open>
  The sum of the terms over the cells, for any way \<open>h\<close> of adjusting the observed counts
  that yields a finite value: the result is finite and is the sum of the rational terms.
\<close>

lemma power_divergence_finite:
  assumes rect: "\<forall>row \<in> set obs. length row = ncols obs"
    and n: "grand_total obs \<noteq> 0"
    and nz: "Fin 0 \<notin> set (concat (expected_freq obs))"
    and h: "\<And>ob e. h ob (Fin e) = Fin (h' ob e)"
  shows "power_divergence
           (map (\<lambda>(r, es). map (\<lambda>(ob, e). h ob e) (zip r es)) (zip obs (expected_freq obs)))
           (expected_freq obs)
         = Fin (\<Sum>row\<leftarrow>obs. \<Sum>cell\<leftarrow>zip row (col_totals obs).
                  (h' (fst cell) (spec_expected obs row (snd cell))
                     - spec_expected obs row (snd cell))\<^sup>2
                  / spec_expected obs row (snd cell))"
proof -
  let ?E = "\<lambda>row ct. spec_expected obs row ct"
  let ?cts = "col_totals obs"
  let ?exp = "\<lambda>row. map (\<lambda>ct. Fin (?E row ct)) ?cts"
  let ?fob = "\<lambda>row. map (\<lambda>(ob, e). h ob e) (zip row (?exp row))"
  let ?summand = "\<lambda>row cell. (h' (fst cell) (?E row (snd cell)) - ?E row (snd cell))\<^sup>2
                  / ?E row (snd cell)"
  have ex: "expected_freq obs = map ?exp obs" using n by (rule expected_freq_rows)
  have fobs: "map (\<lambda>(r, es). map (\<lambda>(ob, e). h ob e) (zip r es)) (zip obs (expected_freq obs))
              = map ?fob obs"
    unfolding ex by (rule map_zip_map_same)
  have len: "\<forall>row \<in> set obs. length (?fob row) = length (?exp row)"
    using rect by (simp add: length_col_totals)
  have Enz: "?E row ct \<noteq> 0" if "row \<in> set obs" "ct \<in> set ?cts" for row ct
  proof
    assume "?E row ct = 0"
    with that have "Fin 0 \<in> set (concat (map ?exp obs))" by force
    with nz ex show False by simp
  qed
  have row_eq: "map (\<lambda>(a, b). pearson_term a b) (zip (?fob row) (?exp row))
                = map Fin (map (?summand row) (zip row ?cts))"
    if row: "row \<in> set obs" for row
  proof -
    have "zip (?fob row) (?exp row)
          = map (\<lambda>cell. (h (fst cell) (Fin (?E row (snd cell))), Fin (?E row (snd cell))))
              (zip row ?cts)"
      by (rule nth_equalityI) (simp_all add: case_prod_unfold)
    moreover have "pearson_term (h (fst cell) (Fin (?E row (snd cell)))) (Fin (?E row (snd cell)))
          = Fin (?summand row cell)" if "cell \<in> set (zip row ?cts)" for cell
    proof -
      have "snd cell \<in> set ?cts"
        using that set_zip_rightD[of "fst cell" "snd cell" row ?cts] by simp
      with row have "?E row (snd cell) \<noteq> 0" by (rule Enz)
      then show ?thesis by (simp add: h)
    qed
    ultimately show ?thesis by (simp add: o_def)
  qed
  have "power_divergence (map ?fob obs) (map ?exp obs)
        = xsum (concat (map (\<lambda>row. map (\<lambda>(a, b). pearson_term a b)
                                (zip (?fob row) (?exp row))) obs))"
    unfolding power_divergence_def zip_concat_map[OF len] by (simp add: map_concat o_def)
  also have "\<dots> = xsum (concat (map (\<lambda>row. map Fin (map (?summand row) (zip row ?cts))) obs))"
    using row_eq by (simp cong: map_cong)
  also have "\<dots> = xsum (map Fin (concat (map (\<lambda>row. map (?summand row) (zip row ?cts)) obs)))"
    by (simp add: map_concat o_def)
  also have "\<dots> = Fin (\<Sum>row\<leftarrow>obs. \<Sum>cell\<leftarrow>zip row ?cts. ?summand row cell)"
    by (simp add: xsum_Fin sum_list_concat_map)
  finally have main: "power_divergence (map ?fob obs) (map ?exp obs)
        = Fin (\<Sum>row\<leftarrow>obs. \<Sum>cell\<leftarrow>zip row ?cts. ?summand row cell)" .
  show ?thesis by (subst fobs) (simp only: ex main)
qed

lemma map2_ignore_second:
  assumes "length r = length es"
  shows "map (\<lambda>(ob, e). f ob) (zip r es) = map f r"
  using assms by (induction r es rule: list_induct2) simp_all

lemma map2_map2_ignore_second:
  assumes "length xss = length yss"
    and "\<forall>p \<in> set (zip xss yss). length (fst p) = length (snd p)"
  shows "map (map f) xss = map (\<lambda>(r, es). map (\<lambda>(ob, e). f ob) (zip r es)) (zip xss yss)"
  using assms by (induction xss yss rule: list_induct2) (simp_all add: map2_ignore_second)

lemma uncorrected_observed:
  assumes rect: "\<forall>row \<in> set obs. length row = ncols obs"
  shows "map (map (\<lambda>ob. Fin (of_nat ob))) obs =
         map (\<lambda>(r, es). map (\<lambda>(ob, e). Fin (of_nat ob)) (zip r es)) (zip obs (expected_freq obs))"
proof (rule map2_map2_ignore_second)
  show "length obs = length (expected_freq obs)"
    by (simp add: expected_freq_def row_totals_def)
  show "\<forall>p \<in> set (zip obs (expected_freq obs)). length (fst p) = length (snd p)"
  proof
    fix p assume "p \<in> set (zip obs (expected_freq obs))"
    then have "fst p \<in> set obs" "snd p \<in> set (expected_freq obs)"
      using set_zip_leftD[of "fst p" "snd p"] set_zip_rightD[of "fst p" "snd p"] by simp_all
    then have "length (fst p) = ncols obs" "length (snd p) = ncols obs"
      using rect by (auto simp: expected_freq_def length_col_totals)
    then show "length (fst p) = length (snd p)" by simp
  qed
qed

text \<open>On a table with one row or one column every cell equals its expected frequency.\<close>

lemma sum_list_all_zero:
  fixes f :: "'a \<Rightarrow> rat"
  assumes "\<And>x. x \<in> set xs \<Longrightarrow> f x = 0"
  shows "(\<Sum>x\<leftarrow>xs. f x) = 0"
  using assms by (induction xs) simp_all

lemma col_totals_single_row: "col_totals [row] = row"
proof -
  have "map (\<lambda>j. entry row j) [0..<length row] = map (\<lambda>j. row ! j) [0..<length row]"
    by (rule map_cong) (simp_all add: entry_def)
  then show ?thesis by (simp add: col_totals_def ncols_def map_nth)
qed

lemma spec_chi2_one_row:
  assumes "grand_total [row] \<noteq> 0"
  shows "spec_chi2 [row] = 0"
proof -
  have "(of_nat (fst cell) - spec_expected [row] row (snd cell))\<^sup>2
          / spec_expected [row] row (snd cell) = 0"
    if "cell \<in> set (zip row row)" for cell
  proof -
    have "fst cell = snd cell"
      using that zip_same[of "fst cell" "snd cell" row] by simp
    with assms show ?thesis by (simp add: spec_expected_def grand_total_def)
  qed
  then have "(\<Sum>cell\<leftarrow>zip row row.
        (of_nat (fst cell) - spec_expected [row] row (snd cell))\<^sup>2
          / spec_expected [row] row (snd cell)) = 0"
    by (rule sum_list_all_zero)
  then show ?thesis by (simp add: spec_chi2_def col_totals_single_row)
qed

lemma spec_chi2_one_column:
  assumes rect: "\<forall>row \<in> set obs. length row = 1" and n: "grand_total obs \<noteq> 0"
    and ne: "obs \<noteq> []"
  shows "spec_chi2 obs = 0"
proof -
  have nc: "ncols obs = 1" using rect ne by (cases obs) (simp_all add: ncols_def)
  have e: "entry r 0 = sum_list r" if "r \<in> set obs" for r
  proof -
    from rect that have "length r = 1" by simp
    then obtain x where "r = [x]" by (cases r) simp_all
    then show ?thesis by (simp add: entry_def)
  qed
  have ct: "col_totals obs = [grand_total obs]"
    using e by (simp add: col_totals_def nc grand_total_def cong: map_cong)
  have "(\<Sum>cell\<leftarrow>zip row (col_totals obs).
        (of_nat (fst cell) - spec_expected obs row (snd cell))\<^sup>2
          / spec_expected obs row (snd cell)) = 0"
    if "row \<in> set obs" for row
  proof -
    from rect that have "length row = 1" by simp
    then obtain x where "row = [x]" by (cases row) simp_all
    with n show ?thesis by (simp add: ct spec_expected_def)
  qed
  then show ?thesis unfolding spec_chi2_def by (rule sum_list_all_zero)
qed

text \<open>
  The statistic of the test on a rectangular table with a positive total: the plain sum
  of the specification unless the table has one degree of freedom, and the sum after
  Yates' correction when it has one.
\<close>

lemma chi2_contingency_statistic:
  assumes rect: "\<forall>row \<in> set obs. length row = ncols obs"
    and n: "grand_total obs \<noteq> 0"
    and res: "chi2_contingency sf obs = Inr (c, p, k, ex)"
  shows "c = Fin (if k = 1 then yates_chi2 obs else spec_chi2 obs)"
  using res
proof (cases rule: chi2_contingency_cases)
  case degenerate
  from degenerate(1) have ne: "obs \<noteq> []" and nc: "ncols obs \<noteq> 0"
    by (auto simp: size2_def)
  from degenerate(4,5) have "(int (length obs) - 1) * (int (ncols obs) - 1) = 0"
    by (simp add: size2_def algebra_simps)
  then have "length obs = 1 \<or> ncols obs = 1" using ne nc by auto
  then have "spec_chi2 obs = 0"
  proof
    assume "length obs = 1"
    then obtain row where "obs = [row]" by (cases obs) simp_all
    with n show ?thesis by (simp add: spec_chi2_one_row)
  next
    assume "ncols obs = 1"
    with rect n ne show ?thesis by (simp add: spec_chi2_one_column)
  qed
  with degenerate show ?thesis by simp
next
  case yates
  have "c = Fin (yates_chi2 obs)"
    unfolding yates(6) yates_chi2_def
    by (rule power_divergence_finite[OF rect n yates(2)]) (simp add: corrected_def)
  with yates(5) show ?thesis by simp
next
  case pearson
  have "c = Fin (spec_chi2 obs)"
    unfolding pearson(7) spec_chi2_def uncorrected_observed[OF rect]
    by (rule power_divergence_finite[OF rect n pearson(2)]) simp
  with pearson(6) show ?thesis by simp
qed

lemma length_header_setitem: "length (header (setitem d i vals t)) = length (header d)"
  by (simp add: setitem_def)

lemma dtypes_setitem_other:
  "k \<noteq> i \<Longrightarrow> dtypes (setitem d i vals t) ! k = dtypes d ! k"
  by (simp add: setitem_def dtypes_def map_update)

lemma plain_no_category:
  "plain d \<Longrightarrow> k < length (header d) \<Longrightarrow> dtypes d ! k \<noteq> Category cats"
  by (auto simp: plain_def list_all_length dtypes_def)

lemma clean_categories_hold:
  assumes "plain d" and "clean d = Inr c"
  shows "categories_hold (df_clean c)"
  using assms(2)
proof (cases rule: clean_cases)
  case (1 mb dc)
  have h: "header dc = header d" using 1(2) by (rule dropna_rows)
  then have pl: "plain dc" using assms(1) by (simp add: plain_def dtypes_def)
  from 1(3) show ?thesis
  proof (cases rule: convert_severity_cases)
    case (same i)
    with pl show ?thesis
      by (auto simp: categories_hold_def dest: plain_no_category)
  next
    case (categorical i cats)
    let ?vals = "map (\<lambda>r. cell_at r i) (rows dc)"
    have rws: "rows (df_clean c) = rows dc" using 1(3) by (rule convert_severity_rows)
    have cats: "set cats = set ?vals"
      using py_sorted_set[OF categorical(3)] by (simp add: set_unique)
    have ilen: "i < length (header dc)"
      using col_index_less[OF categorical(1)] by (simp add: columns_def)
    show ?thesis
      unfolding categories_hold_def
    proof (intro allI impI ballI)
      fix k cats' r
      assume k: "k < length (header (df_clean c))"
        and dt: "dtypes (df_clean c) ! k = Category cats'"
        and r: "r \<in> set (rows (df_clean c))"
      from k have klen: "k < length (header dc)"
        by (simp add: categorical(4) length_header_setitem)
      have "k = i"
      proof (rule ccontr)
        assume "k \<noteq> i"
        then have "dtypes dc ! k = Category cats'"
          using dt by (simp add: categorical(4) dtypes_setitem_other)
        with pl klen show False by (auto dest: plain_no_category)
      qed
      with dt ilen have "cats' = cats" by (simp add: categorical(4) dtypes_setitem)
      moreover from r rws have "cell_at r i \<in> set ?vals" by simp
      ultimately show "cell_at r k = NaN \<or> cell_at r k \<in> set cats'"
        using cats \<open>k = i\<close> by simp
    qed
  qed
qed

lemma set_labels_subset: "set (labels t vals) \<subseteq> set vals"
  by (cases t) (auto simp: labels_def set_unique)

lemma in_labels:
  assumes "y \<in> set vals" and "\<And>cats. t = Category cats \<Longrightarrow> y \<in> set cats"
  shows "y \<in> set (labels t vals)"
  using assms by (cases t) (auto simp: labels_def set_unique)

lemma pairs_cells:
  assumes "(x, y) \<in> set (pairs d i j)"
  obtains r where "r \<in> set (rows d)" "x = cell_at r i" "y = cell_at r j" "x \<noteq> NaN" "y \<noteq> NaN"
  using assms by (auto simp: pairs_def)

text \<open>
  A contingency table of a table whose categorical cells are categories counts at least
  one record as soon as it has a row label.
\<close>

lemma nat_member_le_sum_list:
  fixes n :: nat
  shows "n \<in> set ns \<Longrightarrow> n \<le> sum_list ns"
  by (induction ns) auto

lemma crosstab_total_positive:
  assumes ok: "categories_hold d" and t: "crosstab d a b = Inr t" and ne: "t_index t \<noteq> []"
  shows "grand_total (t_values t) \<noteq> 0"
  using t
proof (cases rule: crosstab_cases)
  case (1 i j)
  let ?prs = "pairs d i j"
  let ?f = "\<lambda>x. map (\<lambda>y. count_list ?prs (x, y)) (t_columns t)"
  from ne obtain x where x: "x \<in> set (t_index t)" by (cases "t_index t") auto
  have "set (t_index t) \<subseteq> set (map fst ?prs)"
    unfolding 1(3) by (rule set_labels_subset)
  with x have "x \<in> fst ` set ?prs" by auto
  then obtain p where p: "p \<in> set ?prs" "x = fst p" ..
  define y where "y = snd p"
  from p have xy: "(x, y) \<in> set ?prs" by (simp add: y_def)
  then obtain r where r: "r \<in> set (rows d)" "y = cell_at r j" "y \<noteq> NaN"
    by (rule pairs_cells)
  have jlen: "j < length (header d)"
    using col_index_less[OF 1(2)] by (simp add: columns_def)
  have y: "y \<in> set (t_columns t)"
    unfolding 1(4)
  proof (rule in_labels)
    from xy have "snd (x, y) \<in> snd ` set ?prs" by (rule imageI)
    then show "y \<in> set (map snd ?prs)" by simp
  next
    fix cats assume c: "dtypes d ! j = Category cats"
    from ok jlen c have "\<forall>r \<in> set (rows d). cell_at r j = NaN \<or> cell_at r j \<in> set cats"
      unfolding categories_hold_def by blast
    with r show "y \<in> set cats" by blast
  qed
  have pos: "0 < count_list ?prs (x, y)"
    using xy count_list_0_iff[of ?prs "(x, y)"] by simp
  have "count_list ?prs (x, y) \<in> set (?f x)" using y by simp
  then have "count_list ?prs (x, y) \<le> sum_list (?f x)" by (rule nat_member_le_sum_list)
  with pos have rowpos: "0 < sum_list (?f x)" by simp
  have "map sum_list (t_values t) = map (\<lambda>x. sum_list (?f x)) (t_index t)"
    by (simp add: 1(5) o_def)
  moreover have "sum_list (?f x) \<in> set (map (\<lambda>x. sum_list (?f x)) (t_index t))"
    using x by simp
  ultimately have "sum_list (?f x) \<in> set (map sum_list (t_values t))" by simp
  then have "sum_list (?f x) \<le> sum_list (map sum_list (t_values t))"
    by (rule nat_member_le_sum_list)
  with rowpos have "0 < grand_total (t_values t)"
    unfolding grand_total_def by (rule less_le_trans)
  then show ?thesis by (rule gr_implies_not0)
qed

lemma crosstab_rectangular:
  assumes "crosstab d a b = Inr t"
  shows "\<forall>row \<in> set (t_values t). length row = ncols (t_values t)"
proof (cases "t_index t = []")
  case True
  with crosstab_values_shape(1)[OF assms] show ?thesis by simp
next
  case False
  with crosstab_values_shape(2,3)[OF assms] show ?thesis by simp
qed

text \<open>
  C2, as the script has it. For every contingency table of a predictor against severity
  on which the test returns, the statistic is the sum over all cells of
  \<open>(observed - expected)\<^sup>2 / expected\<close> with \<open>expected = row total \<times> column total / grand
  total\<close>, unless the table has one degree of freedom (two rows and two columns): then
  the sum is taken after Yates' continuity correction of the observed counts.
\<close>

theorem chi2_statistic_of_contingency_table:
  assumes "plain d" and "clean d = Inr c" and "run_chi2 sf (df_clean c) var = Inr res"
  shows "\<exists>t. crosstab (df_clean c) var ''Accident_severity'' = Inr t
           \<and> (dof res \<noteq> 1 \<longrightarrow> chi2 res = Fin (spec_chi2 (t_values t)))
           \<and> (dof res = 1 \<longrightarrow> chi2 res = Fin (yates_chi2 (t_values t)))"
  using assms(3)
proof (cases rule: run_chi2_cases)
  case (1 t cs p k ex)
  from 1(2) have "size2 (t_values t) \<noteq> 0" by (cases rule: chi2_contingency_cases)
  then have "t_values t \<noteq> []" by (auto simp: size2_def)
  then have ne: "t_index t \<noteq> []" using crosstab_values_shape(1)[OF 1(1)] by auto
  have ok: "categories_hold (df_clean c)"
    using assms(1,2) by (rule clean_categories_hold)
  have n: "grand_total (t_values t) \<noteq> 0"
    using ok 1(1) ne by (rule crosstab_total_positive)
  have rect: "\<forall>row \<in> set (t_values t). length row = ncols (t_values t)"
    using 1(1) by (rule crosstab_rectangular)
  have "cs = Fin (if k = 1 then yates_chi2 (t_values t) else spec_chi2 (t_values t))"
    using rect n 1(2) by (rule chi2_contingency_statistic)
  with 1 show ?thesis by auto
qed

lemma plain_survey: "plain survey"
  by (simp add: plain_def dtypes_def survey_def cols_of_interest_def)

lemma plain_triple: "plain triple"
  by (simp add: plain_def dtypes_def triple_def cols_of_interest_def)

lemma clean_triple:
  "clean triple =
     Inr \<lparr>df = triple, missing_before = map (\<lambda>n. (n, 0)) cols_of_interest,
          df_clean = triple_clean\<rparr>"
  by (simp add: eval_defs triple_def triple_clean_def)

lemma crosstab_triple:
  "crosstab triple_clean ''Weather_conditions'' ''Accident_severity'' = Inr triple_table"
  by (simp add: crosstab_def pairs_def labels_def eval_defs triple_def triple_clean_def
        triple_table_def)

lemma chi2_triple:
  "chi2_contingency sf (t_values triple_table) =
     Inr (Fin 2, sf (Fin 2) 2, 2,
          [[Fin (1 / 2), Fin (1 / 2), Fin 1], [Fin (1 / 2), Fin (1 / 2), Fin 1]])"
  by (simp add: triple_table_def chi2_defs Let_def upt_rec[of 0] upt_rec[of 1] upt_rec[of 2]
        power2_eq_square)

lemma shape_triple: "shape triple_table = (2, 3)"
  by (simp add: shape_def triple_table_def)

lemma run_chi2_triple:
  "run_chi2 sf triple_clean ''Weather_conditions'' =
     Inr \<lparr>chi2 = Fin 2, p_value = sf (Fin 2) 2, dof = 2, table_shape = (2, 3)\<rparr>"
  by (simp add: run_chi2_def crosstab_triple chi2_triple shape_triple)

lemma spec_chi2_survey: "spec_chi2 (t_values survey_table) = 80 / 63"
  by (simp add: spec_chi2_def spec_expected_def survey_table_def col_totals_def ncols_def
        grand_total_def entry_def upt_rec[of 0] upt_rec[of 1] power2_eq_square)

theorem chi2_statistic_of_contingency_table_witness:
  "plain triple \<and> plain survey
   \<and> run_chi2 (\<lambda>x k. Fin 0) triple_clean ''Weather_conditions'' =
       Inr \<lparr>chi2 = Fin 2, p_value = Fin 0, dof = 2, table_shape = (2, 3)\<rparr>
   \<and> crosstab triple_clean ''Weather_conditions'' ''Accident_severity'' = Inr triple_table
   \<and> Fin 2 = Fin (spec_chi2 (t_values triple_table))
   \<and> run_chi2 (\<lambda>x k. Fin 0) survey_clean ''Weather_conditions'' =
       Inr \<lparr>chi2 = Fin (5 / 28), p_value = Fin 0, dof = 1, table_shape = (2, 2)\<rparr>
   \<and> crosstab survey_clean ''Weather_conditions'' ''Accident_severity'' = Inr survey_table
   \<and> Fin (5 / 28) = Fin (yates_chi2 (t_values survey_table))"
proof -
  let ?sf = "\<lambda>(x::xfloat) (k::int). Fin 0"
  have rt: "run_chi2 ?sf (df_clean \<lparr>df = triple,
              missing_before = map (\<lambda>n. (n, 0)) cols_of_interest,
              df_clean = triple_clean\<rparr>) ''Weather_conditions'' =
       Inr \<lparr>chi2 = Fin 2, p_value = Fin 0, dof = 2, table_shape = (2, 3)\<rparr>"
    by (simp add: run_chi2_triple)
  have rs: "run_chi2 ?sf (df_clean \<lparr>df = survey,
              missing_before = map (\<lambda>n. (n, 0)) cols_of_interest,
              df_clean = survey_clean\<rparr>) ''Weather_conditions'' =
       Inr \<lparr>chi2 = Fin (5 / 28), p_value = Fin 0, dof = 1, table_shape = (2, 2)\<rparr>"
    by (simp add: run_chi2_survey)
  from chi2_statistic_of_contingency_table[OF plain_triple clean_triple rt]
  obtain t where "crosstab triple_clean ''Weather_conditions'' ''Accident_severity'' = Inr t"
    "Fin 2 = Fin (spec_chi2 (t_values t))"
    by auto
  with crosstab_triple have a: "Fin 2 = Fin (spec_chi2 (t_values triple_table))" by simp
  from chi2_statistic_of_contingency_table[OF plain_survey clean_survey rs]
  obtain t' where "crosstab survey_clean ''Weather_conditions'' ''Accident_severity'' = Inr t'"
    "Fin (5 / 28) = Fin (yates_chi2 (t_values t'))"
    by auto
  with crosstab_survey have b: "Fin (5 / 28) = Fin (yates_chi2 (t_values survey_table))" by simp
  from rt have rt': "run_chi2 ?sf triple_clean ''Weather_conditions'' =
       Inr \<lparr>chi2 = Fin 2, p_value = Fin 0, dof = 2, table_shape = (2, 3)\<rparr>" by simp
  from rs have rs': "run_chi2 ?sf survey_clean ''Weather_conditions'' =
       Inr \<lparr>chi2 = Fin (5 / 28), p_value = Fin 0, dof = 1, table_shape = (2, 2)\<rparr>" by simp
  from plain_triple plain_survey rt' crosstab_triple a rs' crosstab_survey b
  show ?thesis by blast
qed

text \<open>
  The claim as stated fails on a table with two rows and two columns: for the ten
  records of \<open>survey\<close> the sum of the specification is \<open>80 / 63\<close>, and the script records
  \<open>5 / 28\<close>.
\<close>

theorem chi2_statistic_counterexample:
  "clean survey = Inr \<lparr>df = survey, missing_before = map (\<lambda>n. (n, 0)) cols_of_interest,
                        df_clean = survey_clean\<rparr>
   \<and> crosstab survey_clean ''Weather_conditions'' ''Accident_severity'' = Inr survey_table
   \<and> t_values survey_table = [[1, 5], [2, 2]]
   \<and> run_chi2 (\<lambda>x k. Fin 0) survey_clean ''Weather_conditions'' =
       Inr \<lparr>chi2 = Fin (5 / 28), p_value = Fin 0, dof = 1, table_shape = (2, 2)\<rparr>
   \<and> spec_chi2 (t_values survey_table) = 80 / 63
   \<and> Fin (5 / 28) \<noteq> Fin (spec_chi2 (t_values survey_table))"
proof -
  have "t_values survey_table = [[1, 5], [2, 2]]" by (simp add: survey_table_def)
  moreover have "Fin (5 / 28) \<noteq> Fin (spec_chi2 (t_values survey_table))"
    by (simp add: spec_chi2_survey)
  ultimately show ?thesis
    using clean_survey crosstab_survey run_chi2_survey[of "\<lambda>x k. Fin 0"] spec_chi2_survey
    by blast
qed

subsection \<open>Expected frequencies of the tables the script builds\<close>

text \<open>
  Every label of a contingency table occurs in a counted record, so the totals of its
  rows and of its columns are positive, and no expected frequency of the table is zero:
  on the tables that the script builds, \<open>chi2_contingency\<close> raises only when the table
  is empty.
\<close>

lemma crosstab_marginals_positive:
  assumes ok: "categories_hold d" and t: "crosstab d a b = Inr t"
  shows "\<forall>rt \<in> set (row_totals (t_values t)). 0 < rt"
    and "\<forall>ct \<in> set (col_totals (t_values t)). 0 < ct"
proof -
  from t obtain i j where 1:
    "col_index (columns d) a = Some i"
    "col_index (columns d) b = Some j"
    "t_index t = labels (dtypes d ! i) (map fst (pairs d i j))"
    "t_columns t = labels (dtypes d ! j) (map snd (pairs d i j))"
    "t_values t = map (\<lambda>x. map (\<lambda>y. count_list (pairs d i j) (x, y)) (t_columns t)) (t_index t)"
    by (rule crosstab_cases)
  let ?prs = "pairs d i j"
  let ?g = "\<lambda>x y. count_list ?prs (x, y)"
  have vals: "t_values t = map (\<lambda>x. map (?g x) (t_columns t)) (t_index t)"
    using 1(5) by simp
  have ilen: "i < length (header d)" and jlen: "j < length (header d)"
    using col_index_less[OF 1(1)] col_index_less[OF 1(2)] by (simp_all add: columns_def)
  have in_idx: "x \<in> set (t_index t)" if "(x, y) \<in> set ?prs" for x y
    unfolding 1(3)
  proof (rule in_labels)
    from that have "fst (x, y) \<in> fst ` set ?prs" by (rule imageI)
    then show "x \<in> set (map fst ?prs)" by simp
  next
    fix cats assume c: "dtypes d ! i = Category cats"
    from that obtain r where r: "r \<in> set (rows d)" "x = cell_at r i" "x \<noteq> NaN"
      by (rule pairs_cells)
    from ok ilen c have "\<forall>r \<in> set (rows d). cell_at r i = NaN \<or> cell_at r i \<in> set cats"
      unfolding categories_hold_def by blast
    with r show "x \<in> set cats" by blast
  qed
  have in_cols: "y \<in> set (t_columns t)" if "(x, y) \<in> set ?prs" for x y
    unfolding 1(4)
  proof (rule in_labels)
    from that have "snd (x, y) \<in> snd ` set ?prs" by (rule imageI)
    then show "y \<in> set (map snd ?prs)" by simp
  next
    fix cats assume c: "dtypes d ! j = Category cats"
    from that obtain r where r: "r \<in> set (rows d)" "y = cell_at r j" "y \<noteq> NaN"
      by (rule pairs_cells)
    from ok jlen c have "\<forall>r \<in> set (rows d). cell_at r j = NaN \<or> cell_at r j \<in> set cats"
      unfolding categories_hold_def by blast
    with r show "y \<in> set cats" by blast
  qed
  have cnt: "0 < ?g x y" if "(x, y) \<in> set ?prs" for x y
    using that count_list_0_iff[of ?prs "(x, y)"] by simp
  show "\<forall>rt \<in> set (row_totals (t_values t)). 0 < rt"
  proof
    fix rt assume "rt \<in> set (row_totals (t_values t))"
    then obtain x where x: "x \<in> set (t_index t)" "rt = sum_list (map (?g x) (t_columns t))"
      by (auto simp: row_totals_def vals)
    have "set (t_index t) \<subseteq> set (map fst ?prs)"
      unfolding 1(3) by (rule set_labels_subset)
    with x(1) have "x \<in> fst ` set ?prs" by auto
    then obtain p where p: "p \<in> set ?prs" "x = fst p" ..
    then have xy: "(x, snd p) \<in> set ?prs" by simp
    have "?g x (snd p) \<in> set (map (?g x) (t_columns t))"
      using in_cols[OF xy] by simp
    then have "?g x (snd p) \<le> sum_list (map (?g x) (t_columns t))"
      by (rule nat_member_le_sum_list)
    with cnt[OF xy] show "0 < rt" by (simp add: x(2))
  qed
  show "\<forall>ct \<in> set (col_totals (t_values t)). 0 < ct"
  proof
    fix ct assume ct: "ct \<in> set (col_totals (t_values t))"
    then have ne: "t_index t \<noteq> []"
      by (auto simp: col_totals_def ncols_def vals)
    have nc: "ncols (t_values t) = length (t_columns t)"
      using crosstab_values_shape(3)[OF t ne] .
    from ct obtain k where k: "k < length (t_columns t)"
      "ct = sum_list (map (\<lambda>r. entry r k) (t_values t))"
      by (auto simp: col_totals_def nc)
    let ?y = "t_columns t ! k"
    have e: "map (\<lambda>r. entry r k) (t_values t) = map (\<lambda>x. ?g x ?y) (t_index t)"
      using k(1) by (simp add: vals entry_def o_def)
    have "set (t_columns t) \<subseteq> set (map snd ?prs)"
      unfolding 1(4) by (rule set_labels_subset)
    with k(1) have "?y \<in> snd ` set ?prs" by auto
    then obtain p where p: "p \<in> set ?prs" "?y = snd p" ..
    then have xy: "(fst p, ?y) \<in> set ?prs" by simp
    have "?g (fst p) ?y \<in> set (map (\<lambda>x. ?g x ?y) (t_index t))"
      using in_idx[OF xy] by simp
    then have "?g (fst p) ?y \<le> sum_list (map (\<lambda>x. ?g x ?y) (t_index t))"
      by (rule nat_member_le_sum_list)
    with cnt[OF xy] show "0 < ct" by (simp add: k(2) e)
  qed
qed

lemma crosstab_expected_nonzero:
  assumes ok: "categories_hold d" and t: "crosstab d a b = Inr t"
  shows "Fin 0 \<notin> set (concat (expected_freq (t_values t)))"
proof
  assume "Fin 0 \<in> set (concat (expected_freq (t_values t)))"
  then obtain row where row: "row \<in> set (expected_freq (t_values t))" "Fin 0 \<in> set row"
    by auto
  from row(1) obtain rt where rt: "rt \<in> set (row_totals (t_values t))"
    and rowdef: "row = map (\<lambda>ct. if grand_total (t_values t) = 0 then NaNf
             else Fin (of_nat rt * of_nat ct / of_nat (grand_total (t_values t))))
           (col_totals (t_values t))"
    unfolding expected_freq_def by auto
  from row(2) have "Fin 0 \<in> (\<lambda>ct. if grand_total (t_values t) = 0 then NaNf
             else Fin (of_nat rt * of_nat ct / of_nat (grand_total (t_values t))))
           ` set (col_totals (t_values t))"
    unfolding rowdef set_map .
  then obtain ct where ct: "ct \<in> set (col_totals (t_values t))"
    and z: "Fin 0 = (if grand_total (t_values t) = 0 then NaNf
             else Fin (of_nat rt * of_nat ct / of_nat (grand_total (t_values t))))" ..
  from rt ct have "0 < rt" "0 < ct"
    using crosstab_marginals_positive[OF ok t] by simp_all
  moreover from z have "grand_total (t_values t) \<noteq> 0"
    by (auto split: if_splits)
  ultimately show False using z by simp
qed

end
